theory Spec2Isabelle
  imports Complex_Main "HOL-Library.Char_ord" "HOL-Library.List_Lexorder"
    "HOL-Library.Product_Lexorder" "HOL-Library.Sublist" "HOL-Library.Multiset"
begin

section \<open>Python strings\<close>

text \<open>
  A Python \<open>str\<close> is modelled as a \<^typ>\<open>string\<close>: each \<^typ>\<open>char\<close> stands for one code
  point below 256. In that range the decimal digits matched by \<open>\d\<close> are exactly
  \<open>0\<close>..\<open>9\<close>, and the characters removed by \<open>str.strip()\<close> are the twelve listed in
  \<open>is_space\<close>. \<open>bytes\<close> values (the raw request body, a digest) are \<^typ>\<open>string\<close>s
  too, one \<^typ>\<open>char\<close> per byte.
\<close>

definition dq :: char where
  "dq = CHR 0x22"

definition nl :: char where
  "nl = CHR 0x0A"

definition is_digit :: "char \<Rightarrow> bool" where
  "is_digit c = (c \<in> set ''0123456789'')"

definition is_space :: "char \<Rightarrow> bool" where
  "is_space c = (c \<in> set [CHR 0x09, CHR 0x0A, CHR 0x0B, CHR 0x0C, CHR 0x0D, CHR 0x1C,
     CHR 0x1D, CHR 0x1E, CHR 0x1F, CHR 0x20, CHR 0x85, CHR 0xA0])"

definition is_ascii :: "char \<Rightarrow> bool" where
  "is_ascii c = ((of_char c :: nat) < 128)"

text \<open>\<open>v.strip()\<close>: leading and trailing whitespace removed.\<close>

definition strip :: "string \<Rightarrow> string" where
  "strip v = rev (dropWhile is_space (rev (dropWhile is_space v)))"

text \<open>\<open>str(n)\<close> for a non-negative and for an arbitrary integer.\<close>

fun str_nat :: "nat \<Rightarrow> string" where
  "str_nat n = (if n < 10 then [''0123456789'' ! n]
                else str_nat (n div 10) @ [''0123456789'' ! (n mod 10)])"

declare str_nat.simps [simp del]

definition str_int :: "int \<Rightarrow> string" where
  "str_int i = (if i < 0 then CHR ''-'' # str_nat (nat (- i)) else str_nat (nat i))"

text \<open>\<open>sep.join(lines)\<close>.\<close>

fun join :: "string \<Rightarrow> string list \<Rightarrow> string" where
  "join sep [] = []"
| "join sep [l] = l"
| "join sep (l # m # ls) = l @ sep @ join sep (m # ls)"

text \<open>Truthiness of an optional string: \<open>None\<close> and the empty string are falsy.\<close>

fun truthy :: "string option \<Rightarrow> bool" where
  "truthy None = False"
| "truthy (Some s) = (s \<noteq> [])"

section \<open>app/metrics.py: MetricsCollector\<close>

text \<open>
  A \<open>defaultdict(int)\<close> keeps its keys in insertion order, so each counter table is an
  association list with distinct keys; \<open>d[key] += 1\<close> is \<open>incr\<close>.
\<close>

record metrics_collector =
  http_requests_total :: "(string \<times> nat) list"
  webhook_requests_total :: "(string \<times> nat) list"
  request_latencies :: "real list"

definition metrics_init :: metrics_collector where
  "metrics_init = \<lparr>http_requests_total = [], webhook_requests_total = [],
     request_latencies = []\<rparr>"

fun incr :: "(string \<times> nat) list \<Rightarrow> string \<Rightarrow> (string \<times> nat) list" where
  "incr [] key = [(key, 1)]"
| "incr ((k, n) # d) key = (if k = key then (k, n + 1) # d else (k, n) # incr d key)"

text \<open>The value a \<open>defaultdict(int)\<close> holds for a key: 0 when the key is missing.\<close>

definition counter :: "(string \<times> nat) list \<Rightarrow> string \<Rightarrow> nat" where
  "counter d key = (case map_of d key of None \<Rightarrow> 0 | Some n \<Rightarrow> n)"

definition http_key :: "string \<Rightarrow> int \<Rightarrow> string" where
  "http_key path status =
     ''{'' @ [dq] @ ''path'' @ [dq] @ '':'' @ [dq] @ path @ [dq] @ '','' @
     [dq] @ ''status'' @ [dq] @ '':'' @ str_int status @ ''}''"

definition webhook_key :: "string \<Rightarrow> string" where
  "webhook_key result =
     ''{'' @ [dq] @ ''result'' @ [dq] @ '':'' @ [dq] @ result @ [dq] @ ''}''"

definition record_http_request :: "string \<Rightarrow> int \<Rightarrow> metrics_collector \<Rightarrow> metrics_collector" where
  "record_http_request path status m =
     m\<lparr>http_requests_total := incr (http_requests_total m) (http_key path status)\<rparr>"

definition record_webhook_result :: "string \<Rightarrow> metrics_collector \<Rightarrow> metrics_collector" where
  "record_webhook_result result m =
     m\<lparr>webhook_requests_total := incr (webhook_requests_total m) (webhook_key result)\<rparr>"

definition record_latency :: "real \<Rightarrow> metrics_collector \<Rightarrow> metrics_collector" where
  "record_latency latency_ms m = m\<lparr>request_latencies := request_latencies m @ [latency_ms]\<rparr>"

text \<open>\<open>sum(1 for l in latencies if l <= bound)\<close>.\<close>

definition bucket :: "real \<Rightarrow> real list \<Rightarrow> nat" where
  "bucket bound latencies = sum_list (map (\<lambda>l. 1) (filter (\<lambda>l. l \<le> bound) latencies))"

definition histogram_lines :: "real list \<Rightarrow> string list" where
  "histogram_lines ls =
     (if ls \<noteq> [] then
        (let latencies = sort ls in
          [''request_latency_ms_count '' @ str_nat (length latencies),
           ''request_latency_ms_bucket{le='' @ [dq] @ ''100'' @ [dq] @ ''} '' @
             str_nat (bucket 100 latencies),
           ''request_latency_ms_bucket{le='' @ [dq] @ ''500'' @ [dq] @ ''} '' @
             str_nat (bucket 500 latencies),
           ''request_latency_ms_bucket{le='' @ [dq] @ ''+Inf'' @ [dq] @ ''} '' @
             str_nat (length latencies)])
      else [])"

definition export_lines :: "metrics_collector \<Rightarrow> string list" where
  "export_lines m =
     map (\<lambda>(key, count). ''http_requests_total'' @ key @ '' '' @ str_nat count)
       (http_requests_total m) @
     map (\<lambda>(key, count). ''webhook_requests_total'' @ key @ '' '' @ str_nat count)
       (webhook_requests_total m) @
     histogram_lines (request_latencies m)"

definition export_prometheus :: "metrics_collector \<Rightarrow> string" where
  "export_prometheus m = join [nl] (export_lines m)"

section \<open>Regular expressions used by the validators\<close>

text \<open>
  The fragment of Python's \<open>re\<close> syntax that app/main.py uses: \<open>^\<close>, \<open>$\<close>, a literal
  character, \<open>\d\<close>, and the repetitions \<open>x+\<close> and \<open>x{n}\<close> of a single character class
  (\<open>x{n}\<close> is written as \<open>n\<close> copies of \<open>x\<close>). \<open>re.match(p, v)\<close> looks for a match that
  starts at position 0 and may end anywhere; without flags \<open>^\<close> matches at position 0
  only, and \<open>$\<close> matches at the end of the string and also just before a newline that is
  the last character of the string.
\<close>

datatype atom = Lit char | Digit

datatype item = Bol | Eol | One atom | OneOrMore atom

fun atom_ok :: "atom \<Rightarrow> char \<Rightarrow> bool" where
  "atom_ok (Lit c) x = (x = c)"
| "atom_ok Digit x = is_digit x"

fun run :: "item list \<Rightarrow> nat \<Rightarrow> string \<Rightarrow> bool" where
  "run [] pos rest = True"
| "run (Bol # p) pos rest = (pos = 0 \<and> run p pos rest)"
| "run (Eol # p) pos rest = ((rest = [] \<or> rest = [nl]) \<and> run p pos rest)"
| "run (One a # p) pos [] = False"
| "run (One a # p) pos (c # cs) = (atom_ok a c \<and> run p (Suc pos) cs)"
| "run (OneOrMore a # p) pos [] = False"
| "run (OneOrMore a # p) pos (c # cs) =
     (atom_ok a c \<and> (run (OneOrMore a # p) (Suc pos) cs \<or> run p (Suc pos) cs))"

definition re_match :: "item list \<Rightarrow> string \<Rightarrow> bool" where
  "re_match p v = run p 0 v"

text \<open>\<open>r"^\+\d+$"\<close>\<close>

definition e164_re :: "item list" where
  "e164_re = [Bol, One (Lit (CHR ''+'')), OneOrMore Digit, Eol]"

text \<open>\<open>r"^\d{4}-\d{2}-\d{2}T\d{2}:\d{2}:\d{2}Z$"\<close>\<close>

definition ts_atoms :: "atom list" where
  "ts_atoms = replicate 4 Digit @ [Lit (CHR ''-'')] @ replicate 2 Digit @ [Lit (CHR ''-'')] @
     replicate 2 Digit @ [Lit (CHR ''T'')] @ replicate 2 Digit @ [Lit (CHR '':'')] @
     replicate 2 Digit @ [Lit (CHR '':'')] @ replicate 2 Digit @ [Lit (CHR ''Z'')]"

definition ts_re :: "item list" where
  "ts_re = Bol # map One ts_atoms @ [Eol]"

section \<open>app/main.py: MessageRequest\<close>

text \<open>
  The value \<open>request.json()\<close> returns. A JSON object is the association list of its
  members, read with \<^const>\<open>map_of\<close>.
\<close>

datatype json = JNull | JBool bool | JNum real | JStr string | JArr "json list"
  | JObj "(string \<times> json) list"

text \<open>
  One entry of a pydantic \<open>ValidationError\<close>: the field is missing, it is not a string, or
  its validator raised \<open>ValueError(msg)\<close>.
\<close>

datatype field_error = Missing string | StringType string | ValueError string string

text \<open>
  What the \<open>try\<close> block of stage 3 can raise: \<open>request.json()\<close> fails on a body that is
  not JSON, \<open>MessageRequest(**data)\<close> raises \<open>TypeError\<close> when \<open>data\<close> is not a mapping and
  \<open>ValidationError\<close> when a field is rejected.
\<close>

datatype error = JSONDecodeError | NotAMapping | ValidationError "field_error list"

record message_request =
  mr_message_id :: string
  from_field :: string
  mr_to :: string
  mr_ts :: string
  mr_text :: "string option"

definition message_id_not_empty :: "string \<Rightarrow> string + string" where
  "message_id_not_empty v =
     (if v = [] \<or> strip v = [] then Inl ''message_id must not be empty'' else Inr v)"

definition from_is_e164 :: "string \<Rightarrow> string + string" where
  "from_is_e164 v =
     (if \<not> re_match e164_re v then Inl ''from must be in E.164 format (e.g. +919876543210)''
      else Inr v)"

definition to_is_e164 :: "string \<Rightarrow> string + string" where
  "to_is_e164 v =
     (if \<not> re_match e164_re v then Inl ''to must be in E.164 format (e.g. +14155550100)''
      else Inr v)"

definition ts_is_iso8601_utc :: "string \<Rightarrow> string + string" where
  "ts_is_iso8601_utc v =
     (if \<not> re_match ts_re v then Inl ''ts must be ISO-8601 UTC (e.g. 2025-01-15T10:00:00Z)''
      else Inr v)"

definition text_max_length :: "string option \<Rightarrow> string + string option" where
  "text_max_length v =
     (if truthy v \<and> length (case v of Some s \<Rightarrow> s | None \<Rightarrow> []) > 4096
      then Inl ''text must not exceed 4096 characters'' else Inr v)"

text \<open>
  Field lookup. A field is read under its alias; with \<open>populate_by_name = True\<close> the
  field's own name is tried when the alias is not a key of the input.
\<close>

fun lookup :: "(string \<times> json) list \<Rightarrow> string list \<Rightarrow> json option" where
  "lookup data [] = None"
| "lookup data (k # ks) = (case map_of data k of Some v \<Rightarrow> Some v | None \<Rightarrow> lookup data ks)"

text \<open>A required field of type \<open>str\<close> with a validator that runs on the string.\<close>

definition required_str ::
  "(string \<times> json) list \<Rightarrow> string list \<Rightarrow> string \<Rightarrow> (string \<Rightarrow> string + string) \<Rightarrow>
   field_error + string" where
  "required_str data keys loc validator =
     (case lookup data keys of
        None \<Rightarrow> Inl (Missing loc)
      | Some (JStr s) \<Rightarrow>
          (case validator s of Inl msg \<Rightarrow> Inl (ValueError loc msg) | Inr v \<Rightarrow> Inr v)
      | Some _ \<Rightarrow> Inl (StringType loc))"

text \<open>
  \<open>text: Optional[str] = None\<close>: a missing key takes the default, \<open>null\<close> and a string
  go through the validator, anything else is a type error.
\<close>

definition optional_str ::
  "(string \<times> json) list \<Rightarrow> string list \<Rightarrow> string \<Rightarrow>
   (string option \<Rightarrow> string + string option) \<Rightarrow> field_error + string option" where
  "optional_str data keys loc validator =
     (case lookup data keys of
        None \<Rightarrow> Inr None
      | Some JNull \<Rightarrow>
          (case validator None of Inl msg \<Rightarrow> Inl (ValueError loc msg) | Inr v \<Rightarrow> Inr v)
      | Some (JStr s) \<Rightarrow>
          (case validator (Some s) of Inl msg \<Rightarrow> Inl (ValueError loc msg) | Inr v \<Rightarrow> Inr v)
      | Some _ \<Rightarrow> Inl (StringType loc))"

fun errs :: "field_error + 'a \<Rightarrow> field_error list" where
  "errs (Inl e) = [e]"
| "errs (Inr v) = []"

text \<open>
  \<open>MessageRequest(**data)\<close>: every field is validated, and the errors of all fields are
  reported together.
\<close>

definition MessageRequest :: "json \<Rightarrow> error + message_request" where
  "MessageRequest data =
     (case data of
        JObj kv \<Rightarrow>
          (let r1 = required_str kv [''message_id''] ''message_id'' message_id_not_empty;
               r2 = required_str kv [''from'', ''from_field''] ''from'' from_is_e164;
               r3 = required_str kv [''to''] ''to'' to_is_e164;
               r4 = required_str kv [''ts''] ''ts'' ts_is_iso8601_utc;
               r5 = optional_str kv [''text''] ''text'' text_max_length
           in case (r1, r2, r3, r4, r5) of
                (Inr a, Inr b, Inr c, Inr d, Inr e) \<Rightarrow>
                  Inr \<lparr>mr_message_id = a, from_field = b, mr_to = c, mr_ts = d, mr_text = e\<rparr>
              | _ \<Rightarrow> Inl (ValidationError (errs r1 @ errs r2 @ errs r3 @ errs r4 @ errs r5)))
      | _ \<Rightarrow> Inl NotAMapping)"

section \<open>The field formats in the specification's words\<close>

text \<open>
  Section 3 of the specification: \<open>from\<close> and \<open>to\<close> are a plus sign followed by one or
  more digits, and \<open>ts\<close> is exactly the twenty characters \<open>YYYY-MM-DDTHH:MM:SSZ\<close>.
  \<open>ends_nl\<close> holds of a JSON string whose last character is a newline.
\<close>

definition spec_e164 :: "string \<Rightarrow> bool" where
  "spec_e164 v =
     (case v of [] \<Rightarrow> False | c # ds \<Rightarrow> c = CHR ''+'' \<and> ds \<noteq> [] \<and> list_all is_digit ds)"

definition spec_ts :: "string \<Rightarrow> bool" where
  "spec_ts v = list_all2 atom_ok ts_atoms v"


section \<open>app/config.py, app/models.py, app/logging_utils.py\<close>

record settings =
  DATABASE_URL :: string
  WEBHOOK_SECRET :: "string option"
  LOG_LEVEL :: string

text \<open>A row of the table \<open>messages\<close>; the column \<open>text\<close> is \<open>msg_text\<close>.\<close>

record message =
  message_id :: string
  from_msisdn :: string
  to_msisdn :: string
  ts :: string
  msg_text :: "string option"
  created_at :: string

text \<open>
  One line written by \<open>log_request\<close>. The latency is kept as measured (the code rounds
  the float to two places), and the line's own timestamp is left out. \<open>LErr e\<close> stands
  for \<open>str(e)\<close>.
\<close>

datatype log_value = LStr string | LBool bool | LInt int | LNat nat | LErr error

record log_entry =
  lg_request_id :: string
  lg_method :: string
  lg_path :: string
  lg_status :: int
  lg_latency_ms :: real
  lg_extra :: "(string \<times> log_value) list"

definition log_request ::
  "string \<Rightarrow> string \<Rightarrow> string \<Rightarrow> int \<Rightarrow> real \<Rightarrow> (string \<times> log_value) list \<Rightarrow>
   log_entry list \<Rightarrow> log_entry list" where
  "log_request request_id method path status latency_ms extra lg =
     lg @ [\<lparr>lg_request_id = request_id, lg_method = method, lg_path = path,
            lg_status = status, lg_latency_ms = latency_ms, lg_extra = extra\<rparr>]"

section \<open>The state of the service and the inputs of one request\<close>

text \<open>
  The table (its rows in insertion order), the process-wide collector and the log. The
  primary key of \<open>messages\<close> is \<open>message_id\<close>: the table never holds two rows with the
  same one (\<open>wf_db\<close>).
\<close>

record app_state =
  db :: "message list"
  metrics :: metrics_collector
  log_lines :: "log_entry list"

definition wf_db :: "message list \<Rightarrow> bool" where
  "wf_db rows = distinct (map message_id rows)"

text \<open>
  What a handler reads from its surroundings: the uuid4 it draws, the time that has
  passed when it leaves, the clock for \<open>created_at\<close>, and whether the store fails with an
  error other than a constraint violation when asked to commit.
\<close>

record env =
  env_request_id :: string
  env_latency_ms :: real
  env_now :: string
  env_db_fault :: "string option"

text \<open>
  A POST /webhook request: the raw body (\<open>None\<close> when reading it raises) and the value
  of the header \<open>X-Signature\<close> (\<open>None\<close> when the header is absent).
\<close>

record request =
  body :: "string option"
  x_signature :: "string option"

datatype content_value = CStr string | CErr error

record response =
  status_code :: int
  content :: "(string \<times> content_value) list"

text \<open>Exceptions that leave a handler uncaught.\<close>

datatype exc = AttributeError | TypeError | OperationalError | OverflowError

section \<open>app/main.py: the webhook\<close>

text \<open>\<open>str.encode()\<close>: UTF-8, for code points below 256.\<close>

definition utf8_encode :: "string \<Rightarrow> string" where
  "utf8_encode s = concat (map (\<lambda>c. let n = (of_char c :: nat) in
     if n < 128 then [c] else [char_of (192 + n div 64), char_of (128 + n mod 64)]) s)"

text \<open>\<open>hexdigest()\<close>: two lowercase hexadecimal digits per byte of the digest.\<close>

definition hex_digit :: "nat \<Rightarrow> char" where
  "hex_digit n = ''0123456789abcdef'' ! n"

definition hexdigest :: "string \<Rightarrow> string" where
  "hexdigest d = concat (map (\<lambda>c. [hex_digit ((of_char c :: nat) div 16),
     hex_digit ((of_char c :: nat) mod 16)]) d)"

text \<open>
  \<open>hmac.compare_digest(a, b)\<close> on two \<open>str\<close> arguments: both must be ASCII, otherwise it
  raises \<open>TypeError\<close>.
\<close>

definition compare_digest :: "string \<Rightarrow> string \<Rightarrow> exc + bool" where
  "compare_digest a b =
     (if list_all is_ascii a \<and> list_all is_ascii b then Inr (a = b) else Inl TypeError)"

fun value_of :: "string option \<Rightarrow> string" where
  "value_of None = []"
| "value_of (Some s) = s"

text \<open>
  The store's insert-and-commit. A commit fails with \<open>IntegrityError\<close> when the primary
  key is taken, and with another error when the store itself fails; the session is
  rolled back in both cases, so the rows stay as they were.
\<close>

datatype db_error = IntegrityError | OtherError string

definition db_insert :: "env \<Rightarrow> message list \<Rightarrow> message \<Rightarrow> db_error + message list" where
  "db_insert env rows new_msg =
     (case env_db_fault env of
        Some e \<Rightarrow> Inl (OtherError e)
      | None \<Rightarrow>
          if message_id new_msg \<in> set (map message_id rows) then Inl IntegrityError
          else Inr (rows @ [new_msg]))"

text \<open>
  The four calls every exit of the webhook but the first makes: the HTTP counter, the
  result counter, the latency and the log line.
\<close>

definition finish ::
  "env \<Rightarrow> int \<Rightarrow> string \<Rightarrow> (string \<times> log_value) list \<Rightarrow> app_state \<Rightarrow> app_state" where
  "finish env status result extra st =
     st\<lparr>metrics := record_latency (env_latency_ms env)
            (record_webhook_result result
              (record_http_request ''/webhook'' status (metrics st))),
        log_lines := log_request (env_request_id env) ''POST'' ''/webhook'' status
            (env_latency_ms env) extra (log_lines st)\<rparr>"

definition invalid_signature :: "env \<Rightarrow> app_state \<Rightarrow> (exc + response) \<times> app_state" where
  "invalid_signature env st =
     (Inr \<lparr>status_code = 401, content = [(''detail'', CStr ''invalid signature'')]\<rparr>,
      finish env 401 ''invalid_signature'' [(''result'', LStr ''invalid_signature'')] st)"

text \<open>Stage 3: \<open>data = await request.json(); msg = MessageRequest(**data)\<close>.\<close>

definition parse_and_validate ::
  "(string \<Rightarrow> json option) \<Rightarrow> string \<Rightarrow> error + message_request" where
  "parse_and_validate json_loads raw_body =
     (case json_loads raw_body of None \<Rightarrow> Inl JSONDecodeError | Some data \<Rightarrow> MessageRequest data)"

text \<open>Stage 4: the insert, and the three ways it ends.\<close>

definition persist :: "message_request \<Rightarrow> env \<Rightarrow> app_state \<Rightarrow> (exc + response) \<times> app_state" where
  "persist msg env st =
     (let new_msg = \<lparr>message_id = mr_message_id msg, from_msisdn = from_field msg,
            to_msisdn = mr_to msg, ts = mr_ts msg, msg_text = mr_text msg,
            created_at = env_now env @ ''Z''\<rparr>
      in case db_insert env (db st) new_msg of
           Inr rows \<Rightarrow>
             (Inr \<lparr>status_code = 200, content = [(''status'', CStr ''ok'')]\<rparr>,
              finish env 200 ''created''
                [(''message_id'', LStr (mr_message_id msg)), (''dup'', LBool False),
                 (''result'', LStr ''created'')] (st\<lparr>db := rows\<rparr>))
         | Inl IntegrityError \<Rightarrow>
             (Inr \<lparr>status_code = 200, content = [(''status'', CStr ''ok'')]\<rparr>,
              finish env 200 ''duplicate''
                [(''message_id'', LStr (mr_message_id msg)), (''dup'', LBool True),
                 (''result'', LStr ''duplicate'')] st)
         | Inl (OtherError e) \<Rightarrow>
             (Inr \<lparr>status_code = 500, content = [(''detail'', CStr ''Internal server error'')]\<rparr>,
              finish env 500 ''error'' [(''result'', LStr ''error''), (''error'', LStr e)] st))"

text \<open>
  POST /webhook. \<open>hmac_sha256 key msg\<close> is the digest \<open>hmac.new(key, msg, hashlib.sha256)\<close>
  computes and \<open>json_loads\<close> is the JSON parser; both are library code. The result is
  the response, or the exception that leaves the handler, and the state afterwards.
\<close>

definition webhook ::
  "(string \<Rightarrow> string \<Rightarrow> string) \<Rightarrow> (string \<Rightarrow> json option) \<Rightarrow> settings \<Rightarrow> request \<Rightarrow> env \<Rightarrow>
   app_state \<Rightarrow> (exc + response) \<times> app_state" where
  "webhook hmac_sha256 json_loads cfg req env st =
     (case body req of
        None \<Rightarrow>
          (Inr \<lparr>status_code = 400, content = [(''detail'', CStr ''Could not read request body'')]\<rparr>,
           st\<lparr>metrics := record_http_request ''/webhook'' 400 (metrics st),
              log_lines := log_request (env_request_id env) ''POST'' ''/webhook'' 400
                (env_latency_ms env)
                [(''result'', LStr ''error''), (''reason'', LStr ''read_body'')] (log_lines st)\<rparr>)
      | Some raw_body \<Rightarrow>
          if \<not> truthy (x_signature req) then invalid_signature env st
          else
            (case WEBHOOK_SECRET cfg of
               None \<Rightarrow> (Inl AttributeError, st)
             | Some secret \<Rightarrow>
                 (let expected = hexdigest (hmac_sha256 (utf8_encode secret) raw_body)
                  in case compare_digest (value_of (x_signature req)) expected of
                       Inl e \<Rightarrow> (Inl e, st)
                     | Inr False \<Rightarrow> invalid_signature env st
                     | Inr True \<Rightarrow>
                         (case parse_and_validate json_loads raw_body of
                            Inl e \<Rightarrow>
                              (Inr \<lparr>status_code = 422, content = [(''detail'', CErr e)]\<rparr>,
                               finish env 422 ''validation_error''
                                 [(''result'', LStr ''validation_error''), (''error'', LErr e)] st)
                          | Inr msg \<Rightarrow> persist msg env st))))"

section \<open>app/main.py: health\<close>

definition health_live :: response where
  "health_live = \<lparr>status_code = 200, content = [(''status'', CStr ''live'')]\<rparr>"

text \<open>\<open>db_ok\<close>: what \<open>db_health_check(db)\<close> returns.\<close>

definition health_ready :: "settings \<Rightarrow> bool \<Rightarrow> response" where
  "health_ready cfg db_ok =
     (if \<not> truthy (WEBHOOK_SECRET cfg)
      then \<lparr>status_code = 503, content = [(''detail'', CStr ''WEBHOOK_SECRET not set'')]\<rparr>
      else if \<not> db_ok
      then \<lparr>status_code = 503, content = [(''detail'', CStr ''database not ready'')]\<rparr>
      else \<lparr>status_code = 200, content = [(''status'', CStr ''ready'')]\<rparr>)"

section \<open>app/main.py: GET /messages\<close>

record message_response =
  resp_message_id :: string
  resp_from_msisdn :: string
  resp_to_msisdn :: string
  resp_ts :: string
  resp_text :: "string option"

definition from_orm :: "message \<Rightarrow> message_response" where
  "from_orm m = \<lparr>resp_message_id = message_id m, resp_from_msisdn = from_msisdn m,
     resp_to_msisdn = to_msisdn m, resp_ts = ts m, resp_text = msg_text m\<rparr>"

text \<open>\<open>MessagesListResponse\<close>, its fields \<open>data\<close>, \<open>total\<close>, \<open>limit\<close> and \<open>offset\<close>.\<close>

record messages_list_response =
  lr_data :: "message_response list"
  lr_total :: nat
  lr_limit :: int
  lr_offset :: int

text \<open>
  The pattern comparison of SQL \<open>LIKE\<close>: in the pattern \<open>%\<close> stands for any run of
  characters and \<open>_\<close> for any one character; there is no escape character.
\<close>

fun like :: "string \<Rightarrow> string \<Rightarrow> bool" where
  "like [] s = (s = [])"
| "like (p # ps) [] = (p = CHR ''%'' \<and> like ps [])"
| "like (p # ps) (c # cs) =
     (if p = CHR ''%'' then like ps (c # cs) \<or> like (p # ps) cs
      else (p = CHR ''_'' \<or> p = c) \<and> like ps cs)"

definition lower_ascii :: "char \<Rightarrow> char" where
  "lower_ascii c =
     (case map_of (zip ''ABCDEFGHIJKLMNOPQRSTUVWXYZ'' ''abcdefghijklmnopqrstuvwxyz'') c of
        Some l \<Rightarrow> l | None \<Rightarrow> c)"

text \<open>
  The store (SQLite, the default \<open>DATABASE_URL\<close>) reads the pattern and the text of a
  \<open>LIKE\<close> up to their first NUL character, and refuses a pattern of more than 50000
  bytes with \<open>OperationalError\<close> whenever it evaluates the \<open>LIKE\<close> on a row.
\<close>

definition c_str :: "string \<Rightarrow> string" where
  "c_str s = takeWhile (\<lambda>c. c \<noteq> CHR 0x00) s"

definition too_complex :: "string \<Rightarrow> bool" where
  "too_complex pattern = (length (utf8_encode (map lower_ascii pattern)) > 50000)"

text \<open>
  \<open>column.ilike(pattern)\<close> is \<open>lower(column) LIKE lower(pattern)\<close>, where \<open>lower\<close> folds
  the ASCII letters; on a \<open>NULL\<close> column the comparison is not true.
\<close>

definition ilike :: "string option \<Rightarrow> string \<Rightarrow> bool" where
  "ilike column pattern =
     (case column of None \<Rightarrow> False
      | Some t \<Rightarrow> like (c_str (map lower_ascii pattern)) (c_str (map lower_ascii t)))"

text \<open>
  \<open>order_by(Message.ts.asc(), Message.message_id.asc())\<close>: the rows sorted by the pair;
  strings compare code point by code point.
\<close>

definition order_by_ts_id :: "message list \<Rightarrow> message list" where
  "order_by_ts_id rows = sort_key (\<lambda>m. (ts m, message_id m)) rows"

text \<open>
  GET /messages. \<open>query.count()\<close> runs first: the store tests \<open>from_msisdn\<close> and \<open>ts\<close>
  before the \<open>LIKE\<close>, so an over-long pattern is refused exactly when some row passes
  the other filters. The page query then binds \<open>LIMIT\<close> and \<open>OFFSET\<close>, and the driver
  raises \<open>OverflowError\<close> for an integer above \<open>2^63 - 1\<close>. Neither exception is caught:
  the handler leaves without a response, a metric or a log line.
\<close>

definition get_messages ::
  "int \<Rightarrow> int \<Rightarrow> string option \<Rightarrow> string option \<Rightarrow> string option \<Rightarrow> env \<Rightarrow> app_state \<Rightarrow>
   (exc + messages_list_response) \<times> app_state" where
  "get_messages limit0 offset0 from_arg since q env st =
     (let limit = (if limit0 < 1 \<or> limit0 > 100 then 50 else limit0);
          offset = (if offset0 < 0 then 0 else offset0);
          query = db st;
          query = (if truthy from_arg
                   then filter (\<lambda>m. from_msisdn m = value_of from_arg) query else query);
          query = (if truthy since
                   then filter (\<lambda>m. ts m \<ge> value_of since) query else query);
          pattern = ''%'' @ value_of q @ ''%''
      in if truthy q \<and> query \<noteq> [] \<and> too_complex pattern then (Inl OperationalError, st)
         else
           (let query = (if truthy q
                         then filter (\<lambda>m. ilike (msg_text m) pattern) query else query);
                total = length query
            in if offset > 2 ^ 63 - 1 then (Inl OverflowError, st)
               else
                 (let messages = take (nat limit) (drop (nat offset) (order_by_ts_id query))
                  in (Inr \<lparr>lr_data = map from_orm messages, lr_total = total,
                           lr_limit = limit, lr_offset = offset\<rparr>,
                      st\<lparr>metrics := record_latency (env_latency_ms env)
                             (record_http_request ''/messages'' 200 (metrics st)),
                         log_lines := log_request (env_request_id env) ''GET'' ''/messages''
                             200 (env_latency_ms env)
                             [(''limit'', LInt limit), (''offset'', LInt offset),
                              (''total'', LNat total)]
                             (log_lines st)\<rparr>))))"

section \<open>app/main.py: GET /stats\<close>

record stats_response =
  total_messages :: nat
  senders_count :: nat
  messages_per_sender :: "(string \<times> nat) list"
  first_message_ts :: "string option"
  last_message_ts :: "string option"

text \<open>\<open>group_by(Message.from_msisdn)\<close> with \<open>count()\<close>: one pair per sender.\<close>

definition group_by_sender :: "message list \<Rightarrow> (string \<times> nat) list" where
  "group_by_sender rows =
     map (\<lambda>s. (s, length (filter (\<lambda>m. from_msisdn m = s) rows)))
       (remdups (map from_msisdn rows))"

text \<open>\<open>func.min\<close> and \<open>func.max\<close> over a column: \<open>NULL\<close> on an empty table.\<close>

fun sql_min :: "string list \<Rightarrow> string option" where
  "sql_min [] = None"
| "sql_min (x # xs) = Some (fold min xs x)"

fun sql_max :: "string list \<Rightarrow> string option" where
  "sql_max [] = None"
| "sql_max (x # xs) = Some (fold max xs x)"

text \<open>
  GET /stats. The query orders the groups by \<open>count() DESC\<close> and names no second key, so
  the order among senders with equal counts is the store's: \<open>order_desc\<close> is the store's
  sort, any function that returns its input rearranged with the counts descending
  (\<open>sorts_desc\<close>).
\<close>

definition sorts_desc :: "((string \<times> nat) list \<Rightarrow> (string \<times> nat) list) \<Rightarrow> bool" where
  "sorts_desc order_desc =
     (\<forall>g. mset (order_desc g) = mset g \<and>
          sorted_wrt (\<lambda>a b. a \<ge> b) (map snd (order_desc g)))"

definition get_stats ::
  "((string \<times> nat) list \<Rightarrow> (string \<times> nat) list) \<Rightarrow> env \<Rightarrow> app_state \<Rightarrow>
   stats_response \<times> app_state" where
  "get_stats order_desc env st =
     (let total_messages = length (db st);
          senders_count = length (remdups (map from_msisdn (db st)));
          top_senders = take 10 (order_desc (group_by_sender (db st)));
          first_message_ts = sql_min (map ts (db st));
          last_message_ts = sql_max (map ts (db st))
      in (\<lparr>total_messages = total_messages, senders_count = senders_count,
            messages_per_sender = top_senders, first_message_ts = first_message_ts,
            last_message_ts = last_message_ts\<rparr>,
          st\<lparr>metrics := record_latency (env_latency_ms env)
                 (record_http_request ''/stats'' 200 (metrics st)),
             log_lines := log_request (env_request_id env) ''GET'' ''/stats'' 200
                 (env_latency_ms env) [] (log_lines st)\<rparr>))"

section \<open>app/main.py: GET /metrics\<close>

definition get_metrics :: "env \<Rightarrow> app_state \<Rightarrow> string \<times> app_state" where
  "get_metrics env st =
     (let body = export_prometheus (metrics st)
      in (body,
          st\<lparr>metrics := record_latency (env_latency_ms env)
                 (record_http_request ''/metrics'' 200 (metrics st)),
             log_lines := log_request (env_request_id env) ''GET'' ''/metrics'' 200
                 (env_latency_ms env) [] (log_lines st)\<rparr>))"

section \<open>Example inputs\<close>

text \<open>
  Concrete inputs on which the theorems below are instantiated: a body, the value a
  parser returns for it, a stand-in digest function, settings, and a state with no
  rows and one with one row.
\<close>

definition quoted :: "string \<Rightarrow> string" where
  "quoted s = [dq] @ s @ [dq]"

definition ex_body :: string where
  "ex_body = ''{'' @ quoted ''message_id'' @ '':'' @ quoted ''m1'' @ '','' @
     quoted ''from'' @ '':'' @ quoted ''+1000000001'' @ '','' @
     quoted ''to'' @ '':'' @ quoted ''+1000000002'' @ '','' @
     quoted ''ts'' @ '':'' @ quoted ''2025-01-15T10:00:00Z'' @ ''}''"

definition ex_payload :: json where
  "ex_payload = JObj [(''message_id'', JStr ''m1''), (''from'', JStr ''+1000000001''),
     (''to'', JStr ''+1000000002''), (''ts'', JStr ''2025-01-15T10:00:00Z'')]"

definition ex_json_loads :: "string \<Rightarrow> json option" where
  "ex_json_loads raw = (if raw = ex_body then Some ex_payload else None)"

definition ex_hmac :: "string \<Rightarrow> string \<Rightarrow> string" where
  "ex_hmac key msg = ''k''"

definition ex_settings :: settings where
  "ex_settings = \<lparr>DATABASE_URL = ''sqlite:///./data/app.db'', WEBHOOK_SECRET = Some ''s3cret'',
     LOG_LEVEL = ''INFO''\<rparr>"

definition ex_env :: env where
  "ex_env = \<lparr>env_request_id = ''r1'', env_latency_ms = 3, env_now = ''2025-01-15T10:00:01'',
     env_db_fault = None\<rparr>"

definition ex_state :: app_state where
  "ex_state = \<lparr>db = [], metrics = metrics_init, log_lines = []\<rparr>"

definition ex_row :: message where
  "ex_row = \<lparr>message_id = ''m1'', from_msisdn = ''+1000000001'', to_msisdn = ''+1000000002'',
     ts = ''2025-01-15T10:00:00Z'', msg_text = None, created_at = ''2025-01-15T10:00:01Z''\<rparr>"

definition ex_request :: request where
  "ex_request = \<lparr>body = Some ex_body, x_signature = Some ''6b''\<rparr>"

definition ex_msg :: message_request where
  "ex_msg = \<lparr>mr_message_id = ''m1'', from_field = ''+1000000001'', mr_to = ''+1000000002'',
     mr_ts = ''2025-01-15T10:00:00Z'', mr_text = None\<rparr>"

definition ex_metrics :: metrics_collector where
  "ex_metrics = \<lparr>http_requests_total = [(http_key ''/webhook'' 200, 2)],
     webhook_requests_total = [(webhook_key ''created'', 1), (webhook_key ''duplicate'', 1)],
     request_latencies = [250, 3]\<rparr>"

definition ex_row2 :: message where
  "ex_row2 = \<lparr>message_id = ''m2'', from_msisdn = ''+1000000003'', to_msisdn = ''+1000000002'',
     ts = ''2025-01-16T09:00:00Z'', msg_text = Some ''Hello World'',
     created_at = ''2025-01-16T09:00:01Z''\<rparr>"

definition ex_row3 :: message where
  "ex_row3 = \<lparr>message_id = ''m0'', from_msisdn = ''+1000000001'', to_msisdn = ''+1000000002'',
     ts = ''2025-01-15T10:00:00Z'', msg_text = Some ''hi'',
     created_at = ''2025-01-15T10:00:02Z''\<rparr>"

text \<open>A sort a store may use for \<open>ORDER BY count DESC\<close>.\<close>

definition ex_order_desc :: "(string \<times> nat) list \<Rightarrow> (string \<times> nat) list" where
  "ex_order_desc g = rev (sort_key snd g)"

section \<open>Facts about the collector, the digest and the table\<close>

lemma counter_incr: "counter (incr d key) k = counter d k + (if k = key then 1 else 0)"
  by (induction d key rule: incr.induct) (auto simp: counter_def)

lemma bucket_length: "bucket b ls = length (filter (\<lambda>l. l \<le> b) ls)"
  by (induction ls) (auto simp: bucket_def)

lemma bucket_sort: "bucket b (sort ls) = length (filter (\<lambda>l. l \<le> b) ls)"
proof -
  have "mset (filter (\<lambda>l. l \<le> b) (sort ls)) = mset (filter (\<lambda>l. l \<le> b) ls)"
    by simp
  then have "length (filter (\<lambda>l. l \<le> b) (sort ls)) = length (filter (\<lambda>l. l \<le> b) ls)"
    by (rule mset_eq_length)
  then show ?thesis by (simp add: bucket_length)
qed

lemma filter_mono_length: "(\<And>x. P x \<Longrightarrow> Q x) \<Longrightarrow> length (filter P xs) \<le> length (filter Q xs)"
  by (induction xs) auto

lemma hex_digit_ascii: "n < 16 \<Longrightarrow> is_ascii (hex_digit n)"
proof -
  assume "n < 16"
  then have "hex_digit n \<in> set ''0123456789abcdef''"
    unfolding hex_digit_def by (intro nth_mem) simp
  moreover have "\<forall>c \<in> set ''0123456789abcdef''. is_ascii c"
    by (simp add: is_ascii_def)
  ultimately show ?thesis by blast
qed

lemma of_char_div16: "(of_char c :: nat) div 16 < 16"
proof -
  have "(of_char c :: nat) < 256" by simp
  then show ?thesis by arith
qed

lemma hexdigest_ascii: "list_all is_ascii (hexdigest d)"
  by (induction d) (simp_all add: hexdigest_def hex_digit_ascii of_char_div16)

lemma hexdigest_length: "length (hexdigest d) = 2 * length d"
  by (induction d) (simp_all add: hexdigest_def)

lemma finish_metrics:
  "metrics (finish env status result extra st) =
     record_latency (env_latency_ms env)
       (record_webhook_result result (record_http_request ''/webhook'' status (metrics st)))"
  by (simp add: finish_def)

lemma finish_db: "db (finish env status result extra st) = db st"
  by (simp add: finish_def)

lemma filter_distinct_key:
  "distinct (map f rows) \<Longrightarrow> row \<in> set rows \<Longrightarrow> filter (\<lambda>r. f r = f row) rows = [row]"
proof (induction rows)
  case Nil
  then show ?case by simp
next
  case (Cons a rows)
  show ?case
  proof (cases "a = row")
    case True
    with Cons.prems have "\<forall>r \<in> set rows. f r \<noteq> f row" by (auto simp: image_iff)
    then have "filter (\<lambda>r. f r = f row) rows = []" by (simp add: filter_empty_conv)
    with True show ?thesis by simp
  next
    case False
    with Cons.prems have "row \<in> set rows" and "f a \<noteq> f row" by (auto simp: image_iff)
    with Cons show ?thesis by simp
  qed
qed

lemma good_signature:
  assumes "d \<noteq> []"
  shows "truthy (Some (hexdigest d))" and "compare_digest (hexdigest d) (hexdigest d) = Inr True"
proof -
  from assms have "length (hexdigest d) \<noteq> 0" by (simp add: hexdigest_length)
  then show "truthy (Some (hexdigest d))" by simp
  show "compare_digest (hexdigest d) (hexdigest d) = Inr True"
    by (simp add: compare_digest_def hexdigest_ascii)
qed

lemma webhook_signed:
  assumes "body req = Some raw" and "WEBHOOK_SECRET cfg = Some secret"
    and "h (utf8_encode secret) raw \<noteq> []"
    and "x_signature req = Some (hexdigest (h (utf8_encode secret) raw))"
  shows "webhook h j cfg req env st =
     (case parse_and_validate j raw of
        Inl e \<Rightarrow>
          (Inr \<lparr>status_code = 422, content = [(''detail'', CErr e)]\<rparr>,
           finish env 422 ''validation_error''
             [(''result'', LStr ''validation_error''), (''error'', LErr e)] st)
      | Inr msg \<Rightarrow> persist msg env st)"
  using assms good_signature[OF assms(3)] by (simp add: webhook_def)

lemma webhook_bad_signature:
  assumes "body req = Some raw" and "WEBHOOK_SECRET cfg = Some secret"
    and "list_all is_ascii (value_of (x_signature req))"
    and "x_signature req \<noteq> Some (hexdigest (h (utf8_encode secret) raw))"
  shows "webhook h j cfg req env st = invalid_signature env st"
proof (cases "truthy (x_signature req)")
  case False
  with assms(1) show ?thesis by (simp add: webhook_def)
next
  case True
  then obtain s where s: "x_signature req = Some s" by (cases "x_signature req") auto
  with assms(4) have "s \<noteq> hexdigest (h (utf8_encode secret) raw)" by simp
  with assms(1-3) s True show ?thesis
    by (simp add: webhook_def compare_digest_def hexdigest_ascii)
qed

lemma ex_e164: "re_match e164_re ''+1000000001''" "re_match e164_re ''+1000000002''"
  by (simp_all add: re_match_def e164_re_def is_digit_def)

lemma ex_ts: "re_match ts_re ''2025-01-15T10:00:00Z''"
  by (simp add: re_match_def ts_re_def ts_atoms_def numeral_2_eq_2 numeral_Bit0)
    (simp add: is_digit_def)

lemma ex_strip: "strip ''m1'' = ''m1''"
  by (simp add: strip_def is_space_def)

lemma ex_parse: "parse_and_validate ex_json_loads ex_body = Inr ex_msg"
  by (simp add: parse_and_validate_def ex_json_loads_def ex_payload_def MessageRequest_def
      required_str_def optional_str_def message_id_not_empty_def from_is_e164_def to_is_e164_def
      ts_is_iso8601_utc_def ex_e164 ex_ts ex_strip ex_msg_def)

lemma ex_digest: "hexdigest (ex_hmac (utf8_encode ''s3cret'') ex_body) = ''6b''"
  by (simp add: ex_hmac_def hexdigest_def hex_digit_def)

section \<open>Idempotent insert\<close>

text \<open>
  C1. A valid payload (correct signature, accepted by the validation) whose
  \<open>message_id\<close> is already the key of a row, delivered while the store answers: the
  handler returns 200 with \<open>{"status": "ok"}\<close>, the result counter of \<open>duplicate\<close> goes up
  by one and the log line carries \<open>dup = True\<close>, and the table is the one before the
  call, so it holds exactly one row with that \<open>message_id\<close>, the existing one.
\<close>

theorem webhook_duplicate:
  assumes "body req = Some raw" and "WEBHOOK_SECRET cfg = Some secret"
    and "h (utf8_encode secret) raw \<noteq> []"
    and "x_signature req = Some (hexdigest (h (utf8_encode secret) raw))"
    and "parse_and_validate j raw = Inr msg"
    and "env_db_fault env = None"
    and "wf_db (db st)"
    and "row \<in> set (db st)" and "message_id row = mr_message_id msg"
  shows "\<exists>st'. webhook h j cfg req env st =
       (Inr \<lparr>status_code = 200, content = [(''status'', CStr ''ok'')]\<rparr>, st') \<and>
     db st' = db st \<and>
     filter (\<lambda>r. message_id r = mr_message_id msg) (db st') = [row] \<and>
     (\<forall>k. counter (webhook_requests_total (metrics st')) k =
        counter (webhook_requests_total (metrics st)) k +
        (if k = webhook_key ''duplicate'' then 1 else 0)) \<and>
     lg_extra (last (log_lines st')) =
       [(''message_id'', LStr (mr_message_id msg)), (''dup'', LBool True),
        (''result'', LStr ''duplicate'')]"
proof -
  let ?st' = "finish env 200 ''duplicate''
     [(''message_id'', LStr (mr_message_id msg)), (''dup'', LBool True),
      (''result'', LStr ''duplicate'')] st"
  from assms(8,9) have "mr_message_id msg \<in> set (map message_id (db st))" by force
  with assms(6) have ins: "db_insert env (db st)
      \<lparr>message_id = mr_message_id msg, from_msisdn = from_field msg, to_msisdn = mr_to msg,
       ts = mr_ts msg, msg_text = mr_text msg, created_at = env_now env @ ''Z''\<rparr> = Inl IntegrityError"
    by (simp add: db_insert_def)
  have p: "persist msg env st =
      (Inr \<lparr>status_code = 200, content = [(''status'', CStr ''ok'')]\<rparr>, ?st')"
    by (simp add: persist_def Let_def ins)
  have w: "webhook h j cfg req env st =
      (Inr \<lparr>status_code = 200, content = [(''status'', CStr ''ok'')]\<rparr>, ?st')"
    using webhook_signed[of req raw cfg secret h j env st] assms(1-5) p by simp
  have d: "db ?st' = db st" by (simp add: finish_db)
  from assms(7) have "distinct (map message_id (db st))" by (simp add: wf_db_def)
  from filter_distinct_key[OF this assms(8)] assms(9)
  have f: "filter (\<lambda>r. message_id r = mr_message_id msg) (db ?st') = [row]"
    by (simp add: d)
  have c: "\<forall>k. counter (webhook_requests_total (metrics ?st')) k =
        counter (webhook_requests_total (metrics st)) k +
        (if k = webhook_key ''duplicate'' then 1 else 0)"
    by (simp add: finish_metrics record_latency_def record_webhook_result_def
        record_http_request_def counter_incr)
  have l: "lg_extra (last (log_lines ?st')) =
       [(''message_id'', LStr (mr_message_id msg)), (''dup'', LBool True),
        (''result'', LStr ''duplicate'')]"
    by (simp add: finish_def log_request_def)
  from w d f c l show ?thesis by blast
qed

theorem webhook_duplicate_witness:
  "parse_and_validate ex_json_loads ex_body = Inr ex_msg \<and>
   wf_db [ex_row] \<and> message_id ex_row = mr_message_id ex_msg \<and>
   (\<exists>st'. webhook ex_hmac ex_json_loads ex_settings ex_request ex_env (ex_state\<lparr>db := [ex_row]\<rparr>) =
       (Inr \<lparr>status_code = 200, content = [(''status'', CStr ''ok'')]\<rparr>, st') \<and>
     db st' = [ex_row] \<and>
     filter (\<lambda>r. message_id r = ''m1'') (db st') = [ex_row] \<and>
     (\<forall>k. counter (webhook_requests_total (metrics st')) k =
        counter (webhook_requests_total (metrics (ex_state\<lparr>db := [ex_row]\<rparr>))) k +
        (if k = webhook_key ''duplicate'' then 1 else 0)) \<and>
     lg_extra (last (log_lines st')) =
       [(''message_id'', LStr ''m1''), (''dup'', LBool True), (''result'', LStr ''duplicate'')])"
proof -
  have 1: "body ex_request = Some ex_body" by (simp add: ex_request_def)
  have 2: "WEBHOOK_SECRET ex_settings = Some ''s3cret''" by (simp add: ex_settings_def)
  have 3: "ex_hmac (utf8_encode ''s3cret'') ex_body \<noteq> []" by (simp add: ex_hmac_def)
  have 4: "x_signature ex_request = Some (hexdigest (ex_hmac (utf8_encode ''s3cret'') ex_body))"
    by (simp add: ex_request_def ex_digest)
  have 6: "env_db_fault ex_env = None" by (simp add: ex_env_def)
  have 7: "wf_db (db (ex_state\<lparr>db := [ex_row]\<rparr>))" by (simp add: wf_db_def)
  have 8: "ex_row \<in> set (db (ex_state\<lparr>db := [ex_row]\<rparr>))" by simp
  have 9: "message_id ex_row = mr_message_id ex_msg" by (simp add: ex_row_def ex_msg_def)
  have m: "mr_message_id ex_msg = ''m1''" by (simp add: ex_msg_def)
  from webhook_duplicate[of ex_request ex_body ex_settings "''s3cret''" ex_hmac ex_json_loads
      ex_msg ex_env "ex_state\<lparr>db := [ex_row]\<rparr>" ex_row] 1 2 3 4 6 7 8 9 ex_parse show ?thesis
    by (simp add: m)
qed

section \<open>Signature check\<close>

text \<open>
  C2. A request whose \<open>X-Signature\<close> holds a character outside ASCII (here the single
  character U+00E9), with a secret configured and a readable body: \<open>compare_digest\<close>
  raises \<open>TypeError\<close>, nothing catches it, and the handler leaves with that exception
  instead of the 401 response; the state is unchanged. For ASCII header values the
  handler does answer 401 (\<open>webhook_bad_signature\<close>), and with the right value it goes
  on to validation (\<open>webhook_signed\<close>).
\<close>

theorem webhook_non_ascii_signature:
  "webhook h j (cfg\<lparr>WEBHOOK_SECRET := Some secret\<rparr>)
     \<lparr>body = Some raw, x_signature = Some [CHR 0xE9]\<rparr> env st = (Inl TypeError, st)"
  by (simp add: webhook_def compare_digest_def is_ascii_def)

text \<open>
  C10. With no secret configured, a readable body and a non-empty \<open>X-Signature\<close> value,
  the handler leaves with \<open>AttributeError\<close>: no 401 response, and the state (so the
  table) is unchanged; the readiness probe reports the missing secret with 503. An
  empty header value counts as a missing header and is answered with 401 before the
  secret is read.
\<close>

theorem webhook_missing_secret:
  "WEBHOOK_SECRET cfg = None \<Longrightarrow> body req = Some raw \<Longrightarrow> x_signature req = Some s \<Longrightarrow> s \<noteq> [] \<Longrightarrow>
   webhook h j cfg req env st = (Inl AttributeError, st) \<and>
   health_ready cfg db_ok =
     \<lparr>status_code = 503, content = [(''detail'', CStr ''WEBHOOK_SECRET not set'')]\<rparr>"
  by (simp add: webhook_def health_ready_def)

theorem webhook_missing_secret_witness:
  "WEBHOOK_SECRET (ex_settings\<lparr>WEBHOOK_SECRET := None\<rparr>) = None \<and>
   webhook ex_hmac ex_json_loads (ex_settings\<lparr>WEBHOOK_SECRET := None\<rparr>)
     \<lparr>body = Some ex_body, x_signature = Some ''abc''\<rparr> ex_env ex_state =
     (Inl AttributeError, ex_state) \<and>
   health_ready (ex_settings\<lparr>WEBHOOK_SECRET := None\<rparr>) True =
     \<lparr>status_code = 503, content = [(''detail'', CStr ''WEBHOOK_SECRET not set'')]\<rparr>"
  using webhook_missing_secret[of "ex_settings\<lparr>WEBHOOK_SECRET := None\<rparr>"
      "\<lparr>body = Some ex_body, x_signature = Some ''abc''\<rparr>" ex_body "''abc''"
      ex_hmac ex_json_loads ex_env ex_state True]
  by simp

theorem webhook_missing_secret_empty_header:
  "webhook ex_hmac ex_json_loads (ex_settings\<lparr>WEBHOOK_SECRET := None\<rparr>)
     \<lparr>body = Some ex_body, x_signature = Some []\<rparr> ex_env ex_state =
   (Inr \<lparr>status_code = 401, content = [(''detail'', CStr ''invalid signature'')]\<rparr>,
    finish ex_env 401 ''invalid_signature'' [(''result'', LStr ''invalid_signature'')] ex_state)"
  by (simp add: webhook_def invalid_signature_def)

section \<open>Payload validation\<close>



lemma dropWhile_all: "(\<forall>x \<in> set (dropWhile P v). P x) \<longleftrightarrow> (\<forall>c \<in> set v. P c)"
  by (induction v) auto

lemma strip_empty_iff: "strip v = [] \<longleftrightarrow> (\<forall>c \<in> set v. is_space c)"
  by (simp add: strip_def dropWhile_eq_Nil_conv dropWhile_all)













text \<open>
  What the two patterns accept: a plus sign and one or more digits, and the twenty
  characters of a timestamp, each optionally followed by one newline (the \<open>$\<close> of
  \<open>re.match\<close>). The values the specification lists as rejected are rejected.
\<close>

lemma run_ones:
  "run (map One as @ [Eol]) pos s \<longleftrightarrow>
   (\<exists>core. list_all2 atom_ok as core \<and> (s = core \<or> s = core @ [nl]))"
proof (induction as arbitrary: pos s)
  case Nil
  then show ?case by auto
next
  case (Cons a as)
  show ?case
  proof (cases s)
    case Nil
    then show ?thesis by (auto simp: list_all2_Cons1)
  next
    case s: (Cons c cs)
    have "run (map One (a # as) @ [Eol]) pos s \<longleftrightarrow>
        atom_ok a c \<and> (\<exists>core. list_all2 atom_ok as core \<and> (cs = core \<or> cs = core @ [nl]))"
      using Cons.IH[of "Suc pos" cs] by (simp add: s)
    also have "\<dots> \<longleftrightarrow>
        (\<exists>core. list_all2 atom_ok (a # as) core \<and> (s = core \<or> s = core @ [nl]))"
    proof
      assume "atom_ok a c \<and> (\<exists>core. list_all2 atom_ok as core \<and> (cs = core \<or> cs = core @ [nl]))"
      then obtain core where "atom_ok a c" "list_all2 atom_ok as core" "cs = core \<or> cs = core @ [nl]"
        by blast
      then show "\<exists>core. list_all2 atom_ok (a # as) core \<and> (s = core \<or> s = core @ [nl])"
        by (intro exI[of _ "c # core"]) (auto simp: s)
    next
      assume "\<exists>core. list_all2 atom_ok (a # as) core \<and> (s = core \<or> s = core @ [nl])"
      then obtain core where c: "list_all2 atom_ok (a # as) core" "s = core \<or> s = core @ [nl]"
        by blast
      then obtain z zs where z: "core = z # zs" "atom_ok a z" "list_all2 atom_ok as zs"
        by (auto simp: list_all2_Cons1)
      with c(2) have "c = z" "cs = zs \<or> cs = zs @ [nl]" by (auto simp: s)
      with z show "atom_ok a c \<and> (\<exists>core. list_all2 atom_ok as core \<and> (cs = core \<or> cs = core @ [nl]))"
        by blast
    qed
    finally show ?thesis .
  qed
qed

lemma atom_ok_Digit: "atom_ok Digit = is_digit"
  by (rule ext) simp

lemma run_plus:
  "run [OneOrMore a, Eol] pos s \<longleftrightarrow>
   (\<exists>ds. ds \<noteq> [] \<and> list_all (atom_ok a) ds \<and> (s = ds \<or> s = ds @ [nl]))"
proof (induction s arbitrary: pos)
  case Nil
  then show ?case by auto
next
  case (Cons c cs)
  show ?case
  proof
    assume "run [OneOrMore a, Eol] pos (c # cs)"
    then have c: "atom_ok a c" and
      d: "run [OneOrMore a, Eol] (Suc pos) cs \<or> cs = [] \<or> cs = [nl]" by auto
    from d show "\<exists>ds. ds \<noteq> [] \<and> list_all (atom_ok a) ds \<and> (c # cs = ds \<or> c # cs = ds @ [nl])"
    proof (elim disjE)
      assume "run [OneOrMore a, Eol] (Suc pos) cs"
      with Cons.IH obtain ds where "ds \<noteq> []" "list_all (atom_ok a) ds" "cs = ds \<or> cs = ds @ [nl]"
        by blast
      with c show ?thesis by (intro exI[of _ "c # ds"]) auto
    next
      assume "cs = []"
      with c show ?thesis by (intro exI[of _ "[c]"]) auto
    next
      assume "cs = [nl]"
      with c show ?thesis by (intro exI[of _ "[c]"]) auto
    qed
  next
    assume "\<exists>ds. ds \<noteq> [] \<and> list_all (atom_ok a) ds \<and> (c # cs = ds \<or> c # cs = ds @ [nl])"
    then obtain ds where ds: "ds \<noteq> []" "list_all (atom_ok a) ds" "c # cs = ds \<or> c # cs = ds @ [nl]"
      by blast
    then obtain d ds' where dd: "ds = d # ds'" by (cases ds) auto
    with ds have c: "atom_ok a c" and cs: "cs = ds' \<or> cs = ds' @ [nl]" and a: "list_all (atom_ok a) ds'"
      by auto
    show "run [OneOrMore a, Eol] pos (c # cs)"
    proof (cases "ds' = []")
      case True
      with c cs show ?thesis by auto
    next
      case False
      with a cs Cons.IH[of "Suc pos"] have "run [OneOrMore a, Eol] (Suc pos) cs" by blast
      with c show ?thesis by simp
    qed
  qed
qed

lemma e164_shape:
  "re_match e164_re v \<longleftrightarrow>
   (\<exists>ds. ds \<noteq> [] \<and> list_all is_digit ds \<and> (v = CHR ''+'' # ds \<or> v = CHR ''+'' # ds @ [nl]))"
proof (cases v)
  case Nil
  then show ?thesis by (simp add: re_match_def e164_re_def)
next
  case (Cons c cs)
  have "re_match e164_re (c # cs) \<longleftrightarrow> c = CHR ''+'' \<and> run [OneOrMore Digit, Eol] 1 cs"
    by (auto simp: re_match_def e164_re_def)
  then show ?thesis unfolding Cons run_plus atom_ok_Digit by auto
qed

lemma ts_shape:
  "re_match ts_re v \<longleftrightarrow>
   (\<exists>core. list_all2 atom_ok ts_atoms core \<and> (v = core \<or> v = core @ [nl]))"
  by (simp add: re_match_def ts_re_def run_ones)

lemma e164_examples:
  "\<not> re_match e164_re ''919876543210''" "\<not> re_match e164_re ''+abc''"
  by (simp_all add: re_match_def e164_re_def is_digit_def)

lemma ts_example: "\<not> re_match ts_re ''2025-01-15 10:00:00''"
  by (simp add: re_match_def ts_re_def ts_atoms_def numeral_2_eq_2 numeral_Bit0)



text \<open>
  The patterns against the formats of the specification. A value that \<open>re.match\<close>
  accepts has the specified format or is such a value followed by one newline; a value
  of the specified format never ends with a newline.
\<close>

lemma is_digit_nl: "\<not> is_digit nl"
  by (simp add: is_digit_def nl_def)

lemma e164_spec:
  "re_match e164_re v \<longleftrightarrow> spec_e164 v \<or> (\<exists>w. v = w @ [nl] \<and> spec_e164 w)"
proof -
  have "spec_e164 u \<longleftrightarrow> (\<exists>ds. ds \<noteq> [] \<and> list_all is_digit ds \<and> u = CHR ''+'' # ds)" for u
    by (cases u) (auto simp: spec_e164_def)
  then show ?thesis unfolding e164_shape by auto
qed

lemma spec_e164_no_nl: "spec_e164 v \<Longrightarrow> \<not> (v \<noteq> [] \<and> last v = nl)"
proof (cases v)
  case Nil
  then show ?thesis by simp
next
  case (Cons c ds)
  assume "spec_e164 v"
  with Cons have d: "ds \<noteq> []" "list_all is_digit ds" by (simp_all add: spec_e164_def)
  then have "is_digit (last ds)" by (simp add: list_all_iff)
  with is_digit_nl have "last ds \<noteq> nl" by auto
  with d Cons show ?thesis by simp
qed

lemma e164_no_nl:
  "\<not> (v \<noteq> [] \<and> last v = nl) \<Longrightarrow> re_match e164_re v \<longleftrightarrow> spec_e164 v"
  unfolding e164_spec by auto

lemma ts_spec: "re_match ts_re v \<longleftrightarrow> spec_ts v \<or> (\<exists>w. v = w @ [nl] \<and> spec_ts w)"
  unfolding ts_shape spec_ts_def by auto

lemma ts_no_nl:
  "\<not> (v \<noteq> [] \<and> last v = nl) \<Longrightarrow> re_match ts_re v \<longleftrightarrow> spec_ts v"
  unfolding ts_spec by auto


lemma ex_spec: "spec_e164 ''+1000000001''" "spec_e164 ''+1000000002''"
  "spec_ts ''2025-01-15T10:00:00Z''"
  using ex_e164 ex_ts
    e164_no_nl[of "''+1000000001''"] e164_no_nl[of "''+1000000002''"]
    ts_no_nl[of "''2025-01-15T10:00:00Z''"]
  by (simp_all add: nl_def)

text \<open>
  A sender and a timestamp that end with a newline pass their validators, although
  they do not have the specified format.
\<close>

lemma trailing_newline_accepted:
  "from_is_e164 (''+1'' @ [nl]) = Inr (''+1'' @ [nl])" "\<not> spec_e164 (''+1'' @ [nl])"
  "ts_is_iso8601_utc (''2025-01-15T10:00:00Z'' @ [nl]) = Inr (''2025-01-15T10:00:00Z'' @ [nl])"
  "\<not> spec_ts (''2025-01-15T10:00:00Z'' @ [nl])"
proof -
  have "re_match e164_re (''+1'' @ [nl])"
    by (simp add: re_match_def e164_re_def is_digit_def)
  then show "from_is_e164 (''+1'' @ [nl]) = Inr (''+1'' @ [nl])"
    by (simp add: from_is_e164_def)
  show "\<not> spec_e164 (''+1'' @ [nl])"
    using spec_e164_no_nl[of "''+1'' @ [nl]"] by auto
  have "re_match ts_re (''2025-01-15T10:00:00Z'' @ [nl])"
    unfolding ts_spec using ex_spec(3) by blast
  then show "ts_is_iso8601_utc (''2025-01-15T10:00:00Z'' @ [nl]) =
      Inr (''2025-01-15T10:00:00Z'' @ [nl])"
    by (simp add: ts_is_iso8601_utc_def)
  have "length ts_atoms = 20" by (simp add: ts_atoms_def)
  then show "\<not> spec_ts (''2025-01-15T10:00:00Z'' @ [nl])"
    unfolding spec_ts_def by (auto dest: list_all2_lengthD)
qed




section \<open>Metrics emitted by the webhook\<close>

lemma persist_emits:
  "persist msg env st = (r, st') \<Longrightarrow>
   \<exists>resp result. r = Inr resp \<and> result \<in> set [''created'', ''duplicate'', ''error''] \<and>
     metrics st' = record_latency (env_latency_ms env)
       (record_webhook_result result
         (record_http_request ''/webhook'' (status_code resp) (metrics st)))"
  by (auto simp: persist_def Let_def finish_metrics split: sum.splits db_error.splits)

lemma invalid_signature_emits:
  "invalid_signature env st = (r, st') \<Longrightarrow>
   \<exists>resp. r = Inr resp \<and>
     metrics st' = record_latency (env_latency_ms env)
       (record_webhook_result ''invalid_signature''
         (record_http_request ''/webhook'' (status_code resp) (metrics st)))"
  by (auto simp: invalid_signature_def finish_metrics)

lemma webhook_emits_aux:
  assumes "webhook h j cfg req env st = (Inr resp, st')" and "body req \<noteq> None"
  shows "\<exists>result \<in> set [''created'', ''duplicate'', ''invalid_signature'', ''validation_error'', ''error''].
     metrics st' = record_latency (env_latency_ms env)
       (record_webhook_result result
         (record_http_request ''/webhook'' (status_code resp) (metrics st)))"
proof -
  from assms(2) obtain raw where raw: "body req = Some raw" by auto
  show ?thesis
  proof (cases "truthy (x_signature req)")
    case False
    with assms(1) raw have "invalid_signature env st = (Inr resp, st')"
      by (simp add: webhook_def)
    from invalid_signature_emits[OF this] show ?thesis by auto
  next
    case True
    show ?thesis
    proof (cases "WEBHOOK_SECRET cfg")
      case None
      with assms(1) raw True show ?thesis by (simp add: webhook_def)
    next
      case (Some secret)
      show ?thesis
      proof (cases "compare_digest (value_of (x_signature req)) (hexdigest (h (utf8_encode secret) raw))")
        case (Inl e)
        with assms(1) raw True Some show ?thesis by (simp add: webhook_def)
      next
        case (Inr ok)
        show ?thesis
        proof (cases ok)
          case False
          with assms(1) raw True Some Inr have "invalid_signature env st = (Inr resp, st')"
            by (simp add: webhook_def)
          from invalid_signature_emits[OF this] show ?thesis by auto
        next
          case ok: True
          show ?thesis
          proof (cases "parse_and_validate j raw")
            case (Inl e)
            with assms(1) raw True Some Inr ok show ?thesis
              by (auto simp: webhook_def finish_metrics)
          next
            case msg: (Inr msg)
            with assms(1) raw True Some Inr ok have "persist msg env st = (Inr resp, st')"
              by (simp add: webhook_def)
            from persist_emits[OF this] show ?thesis by auto
          qed
        qed
      qed
    qed
  qed
qed

text \<open>
  C8. Whenever the webhook handler returns a response, the HTTP counter of
  (\<open>/webhook\<close>, status) goes up by one and no other HTTP counter changes. If the body was
  read, exactly one of the five result counters goes up by one and the latency is
  appended to the observations. If the body could not be read, the response is 400 and
  neither a result counter nor the list of latencies changes: that path records no
  latency observation.
\<close>

theorem webhook_emits:
  "webhook h j cfg req env st = (Inr resp, st') \<Longrightarrow>
   (\<forall>k. counter (http_requests_total (metrics st')) k =
      counter (http_requests_total (metrics st)) k +
      (if k = http_key ''/webhook'' (status_code resp) then 1 else 0)) \<and>
   (body req \<noteq> None \<longrightarrow>
      (\<exists>result \<in> set [''created'', ''duplicate'', ''invalid_signature'', ''validation_error'',
          ''error''].
         \<forall>k. counter (webhook_requests_total (metrics st')) k =
           counter (webhook_requests_total (metrics st)) k +
           (if k = webhook_key result then 1 else 0)) \<and>
      request_latencies (metrics st') = request_latencies (metrics st) @ [env_latency_ms env]) \<and>
   (body req = None \<longrightarrow>
      status_code resp = 400 \<and>
      webhook_requests_total (metrics st') = webhook_requests_total (metrics st) \<and>
      request_latencies (metrics st') = request_latencies (metrics st))"
proof (cases "body req")
  case None
  assume "webhook h j cfg req env st = (Inr resp, st')"
  with None show ?thesis
    by (auto simp: webhook_def record_http_request_def counter_incr)
next
  case (Some raw)
  assume w: "webhook h j cfg req env st = (Inr resp, st')"
  from Some have nn: "body req \<noteq> None" by simp
  from webhook_emits_aux[OF w nn] obtain result where
    r: "result \<in> set [''created'', ''duplicate'', ''invalid_signature'', ''validation_error'', ''error'']"
    and m: "metrics st' = record_latency (env_latency_ms env)
       (record_webhook_result result
         (record_http_request ''/webhook'' (status_code resp) (metrics st)))"
    by blast
  have a: "\<forall>k. counter (http_requests_total (metrics st')) k =
      counter (http_requests_total (metrics st)) k +
      (if k = http_key ''/webhook'' (status_code resp) then 1 else 0)"
    by (simp add: m record_latency_def record_webhook_result_def record_http_request_def counter_incr)
  have b: "\<forall>k. counter (webhook_requests_total (metrics st')) k =
           counter (webhook_requests_total (metrics st)) k +
           (if k = webhook_key result then 1 else 0)"
    by (simp add: m record_latency_def record_webhook_result_def record_http_request_def counter_incr)
  have c: "request_latencies (metrics st') = request_latencies (metrics st) @ [env_latency_ms env]"
    by (simp add: m record_latency_def record_webhook_result_def record_http_request_def)
  from a b c r nn show ?thesis by blast
qed

theorem webhook_emits_witness:
  "webhook ex_hmac ex_json_loads ex_settings \<lparr>body = Some ex_body, x_signature = None\<rparr> ex_env
     ex_state =
     (Inr \<lparr>status_code = 401, content = [(''detail'', CStr ''invalid signature'')]\<rparr>,
      finish ex_env 401 ''invalid_signature'' [(''result'', LStr ''invalid_signature'')] ex_state) \<and>
   (\<exists>result \<in> set [''created'', ''duplicate'', ''invalid_signature'', ''validation_error'',
          ''error''].
      \<forall>k. counter (webhook_requests_total (metrics (finish ex_env 401 ''invalid_signature''
               [(''result'', LStr ''invalid_signature'')] ex_state))) k =
           counter (webhook_requests_total (metrics ex_state)) k +
           (if k = webhook_key result then 1 else 0)) \<and>
   request_latencies (metrics (finish ex_env 401 ''invalid_signature''
       [(''result'', LStr ''invalid_signature'')] ex_state)) =
     request_latencies (metrics ex_state) @ [env_latency_ms ex_env]"
proof -
  let ?req = "\<lparr>body = Some ex_body, x_signature = None\<rparr>"
  have h: "webhook ex_hmac ex_json_loads ex_settings ?req ex_env ex_state =
     (Inr \<lparr>status_code = 401, content = [(''detail'', CStr ''invalid signature'')]\<rparr>,
      finish ex_env 401 ''invalid_signature'' [(''result'', LStr ''invalid_signature'')] ex_state)"
    by (simp add: webhook_def invalid_signature_def)
  have b: "body ?req \<noteq> None" by simp
  from webhook_emits[OF h] b h show ?thesis by blast
qed

theorem webhook_read_body_no_latency:
  "fst (webhook ex_hmac ex_json_loads ex_settings \<lparr>body = None, x_signature = None\<rparr> ex_env
     ex_state) =
     Inr \<lparr>status_code = 400, content = [(''detail'', CStr ''Could not read request body'')]\<rparr> \<and>
   request_latencies (metrics (snd (webhook ex_hmac ex_json_loads ex_settings
     \<lparr>body = None, x_signature = None\<rparr> ex_env ex_state))) = []"
  by (simp add: webhook_def ex_state_def metrics_init_def record_http_request_def)

section \<open>Metrics export\<close>

lemma histogram_lines_nonempty:
  "ls \<noteq> [] \<Longrightarrow> histogram_lines ls =
     [''request_latency_ms_count '' @ str_nat (length ls),
      ''request_latency_ms_bucket{le='' @ [dq] @ ''100'' @ [dq] @ ''} '' @
        str_nat (length (filter (\<lambda>l. l \<le> 100) ls)),
      ''request_latency_ms_bucket{le='' @ [dq] @ ''500'' @ [dq] @ ''} '' @
        str_nat (length (filter (\<lambda>l. l \<le> 500) ls)),
      ''request_latency_ms_bucket{le='' @ [dq] @ ''+Inf'' @ [dq] @ ''} '' @
        str_nat (length ls)]"
  by (simp add: histogram_lines_def Let_def bucket_sort)

lemma obs_le_mono: "length (filter (\<lambda>l. l \<le> (100::real)) ls) \<le> length (filter (\<lambda>l. l \<le> 500) ls)"
  by (rule filter_mono_length) simp

text \<open>
  C9. The export is its lines joined by newlines. Every HTTP counter and every result
  counter has its line \<open>name{labels} value\<close>. When at least one latency was recorded, four
  more lines follow: the number of observations, the number of observations at most
  100, the number at most 500, and under \<open>+Inf\<close> the number of observations again; the
  three bucket values are ascending. When no latency was recorded the export holds the
  counter lines only and no histogram.
\<close>

theorem export_prometheus_lines:
  "export_prometheus m = join [nl] (export_lines m) \<and>
   (\<forall>(key, count) \<in> set (http_requests_total m).
      ''http_requests_total'' @ key @ '' '' @ str_nat count \<in> set (export_lines m)) \<and>
   (\<forall>(key, count) \<in> set (webhook_requests_total m).
      ''webhook_requests_total'' @ key @ '' '' @ str_nat count \<in> set (export_lines m)) \<and>
   (request_latencies m \<noteq> [] \<longrightarrow>
      drop (length (http_requests_total m) + length (webhook_requests_total m)) (export_lines m) =
        [''request_latency_ms_count '' @ str_nat (length (request_latencies m)),
         ''request_latency_ms_bucket{le='' @ [dq] @ ''100'' @ [dq] @ ''} '' @
           str_nat (length (filter (\<lambda>l. l \<le> 100) (request_latencies m))),
         ''request_latency_ms_bucket{le='' @ [dq] @ ''500'' @ [dq] @ ''} '' @
           str_nat (length (filter (\<lambda>l. l \<le> 500) (request_latencies m))),
         ''request_latency_ms_bucket{le='' @ [dq] @ ''+Inf'' @ [dq] @ ''} '' @
           str_nat (length (request_latencies m))] \<and>
      length (filter (\<lambda>l. l \<le> 100) (request_latencies m)) \<le>
        length (filter (\<lambda>l. l \<le> 500) (request_latencies m)) \<and>
      length (filter (\<lambda>l. l \<le> 500) (request_latencies m)) \<le> length (request_latencies m)) \<and>
   (request_latencies m = [] \<longrightarrow>
      length (export_lines m) = length (http_requests_total m) + length (webhook_requests_total m))"
proof -
  have a: "export_prometheus m = join [nl] (export_lines m)"
    by (simp add: export_prometheus_def)
  have b: "\<forall>(key, count) \<in> set (http_requests_total m).
      ''http_requests_total'' @ key @ '' '' @ str_nat count \<in> set (export_lines m)"
    by (force simp: export_lines_def)
  have c: "\<forall>(key, count) \<in> set (webhook_requests_total m).
      ''webhook_requests_total'' @ key @ '' '' @ str_nat count \<in> set (export_lines m)"
    by (force simp: export_lines_def)
  have d: "drop (length (http_requests_total m) + length (webhook_requests_total m)) (export_lines m) =
      histogram_lines (request_latencies m)"
    by (simp add: export_lines_def)
  have e: "request_latencies m = [] \<Longrightarrow>
      length (export_lines m) = length (http_requests_total m) + length (webhook_requests_total m)"
    by (simp add: export_lines_def histogram_lines_def)
  from a b c d e show ?thesis
    by (simp add: histogram_lines_nonempty obs_le_mono)
qed

theorem export_prometheus_lines_witness:
  "(http_key ''/webhook'' 200, 2) \<in> set (http_requests_total ex_metrics) \<and>
   ''http_requests_total'' @ http_key ''/webhook'' 200 @ '' '' @ str_nat 2
     \<in> set (export_lines ex_metrics) \<and>
   (webhook_key ''duplicate'', 1) \<in> set (webhook_requests_total ex_metrics) \<and>
   ''webhook_requests_total'' @ webhook_key ''duplicate'' @ '' '' @ str_nat 1
     \<in> set (export_lines ex_metrics) \<and>
   request_latencies ex_metrics \<noteq> [] \<and>
   drop 3 (export_lines ex_metrics) =
     [''request_latency_ms_count '' @ str_nat 2,
      ''request_latency_ms_bucket{le='' @ [dq] @ ''100'' @ [dq] @ ''} '' @ str_nat 1,
      ''request_latency_ms_bucket{le='' @ [dq] @ ''500'' @ [dq] @ ''} '' @ str_nat 2,
      ''request_latency_ms_bucket{le='' @ [dq] @ ''+Inf'' @ [dq] @ ''} '' @ str_nat 2]"
proof -
  have a: "(http_key ''/webhook'' 200, 2) \<in> set (http_requests_total ex_metrics)"
    by (simp add: ex_metrics_def)
  have b: "(webhook_key ''duplicate'', 1) \<in> set (webhook_requests_total ex_metrics)"
    by (simp add: ex_metrics_def)
  have c: "request_latencies ex_metrics \<noteq> []" by (simp add: ex_metrics_def)
  note t = export_prometheus_lines[of ex_metrics]
  from t a have a': "''http_requests_total'' @ http_key ''/webhook'' 200 @ '' '' @ str_nat 2
     \<in> set (export_lines ex_metrics)" by blast
  from t b have b': "''webhook_requests_total'' @ webhook_key ''duplicate'' @ '' '' @ str_nat 1
     \<in> set (export_lines ex_metrics)" by blast
  have l1: "length (http_requests_total ex_metrics) + length (webhook_requests_total ex_metrics) = 3"
    by (simp add: ex_metrics_def)
  have l2: "length (request_latencies ex_metrics) = 2" by (simp add: ex_metrics_def)
  have l3: "length (filter (\<lambda>l. l \<le> 100) (request_latencies ex_metrics)) = 1"
    by (simp add: ex_metrics_def)
  have l4: "length (filter (\<lambda>l. l \<le> 500) (request_latencies ex_metrics)) = 2"
    by (simp add: ex_metrics_def)
  from t c have d: "drop 3 (export_lines ex_metrics) =
     [''request_latency_ms_count '' @ str_nat 2,
      ''request_latency_ms_bucket{le='' @ [dq] @ ''100'' @ [dq] @ ''} '' @ str_nat 1,
      ''request_latency_ms_bucket{le='' @ [dq] @ ''500'' @ [dq] @ ''} '' @ str_nat 2,
      ''request_latency_ms_bucket{le='' @ [dq] @ ''+Inf'' @ [dq] @ ''} '' @ str_nat 2]"
    unfolding l1 l2 l3 l4 by blast
  from a a' b b' c d show ?thesis by blast
qed

theorem export_prometheus_empty: "export_prometheus metrics_init = []"
  by (simp add: export_prometheus_def export_lines_def histogram_lines_def metrics_init_def)

section \<open>LIKE patterns\<close>

lemma like_percent: "like ''%'' s"
  by (induction s) auto

lemma like_percent_prefix:
  "like (CHR ''%'' # ps) s \<longleftrightarrow> (\<exists>a b. s = a @ b \<and> like ps b)"
proof (induction s)
  case Nil
  then show ?case by (cases ps) auto
next
  case (Cons c cs)
  have "like (CHR ''%'' # ps) (c # cs) \<longleftrightarrow> like ps (c # cs) \<or> like (CHR ''%'' # ps) cs"
    by simp
  also have "\<dots> \<longleftrightarrow> like ps (c # cs) \<or> (\<exists>a b. cs = a @ b \<and> like ps b)"
    using Cons.IH by simp
  also have "\<dots> \<longleftrightarrow> (\<exists>a b. c # cs = a @ b \<and> like ps b)"
  proof
    assume "like ps (c # cs) \<or> (\<exists>a b. cs = a @ b \<and> like ps b)"
    then show "\<exists>a b. c # cs = a @ b \<and> like ps b"
    proof
      assume "like ps (c # cs)"
      then show ?thesis by (intro exI[of _ "[]"] exI[of _ "c # cs"]) simp
    next
      assume "\<exists>a b. cs = a @ b \<and> like ps b"
      then obtain a b where "cs = a @ b" "like ps b" by blast
      then show ?thesis by (intro exI[of _ "c # a"] exI[of _ b]) simp
    qed
  next
    assume "\<exists>a b. c # cs = a @ b \<and> like ps b"
    then obtain a b where ab: "c # cs = a @ b" "like ps b" by blast
    show "like ps (c # cs) \<or> (\<exists>a b. cs = a @ b \<and> like ps b)"
    proof (cases a)
      case Nil
      with ab show ?thesis by simp
    next
      case (Cons x xs)
      with ab have "cs = xs @ b" by simp
      with ab(2) show ?thesis by blast
    qed
  qed
  finally show ?case .
qed

lemma like_literal:
  "CHR ''%'' \<notin> set q \<Longrightarrow> CHR ''_'' \<notin> set q \<Longrightarrow>
   like (q @ ps) s \<longleftrightarrow> (\<exists>r. s = q @ r \<and> like ps r)"
proof (induction q arbitrary: s)
  case Nil
  then show ?case by simp
next
  case (Cons x q)
  then have x: "x \<noteq> CHR ''%''" "x \<noteq> CHR ''_''" and
    IH: "\<And>s. like (q @ ps) s \<longleftrightarrow> (\<exists>r. s = q @ r \<and> like ps r)" by auto
  show ?case
  proof (cases s)
    case Nil
    with x show ?thesis by simp
  next
    case (Cons c cs)
    with x IH[of cs] show ?thesis by auto
  qed
qed

lemma like_contains:
  assumes "CHR ''%'' \<notin> set q" and "CHR ''_'' \<notin> set q"
  shows "like (''%'' @ q @ ''%'') s \<longleftrightarrow> sublist q s"
proof -
  have "like (''%'' @ q @ ''%'') s \<longleftrightarrow> (\<exists>a b. s = a @ b \<and> like (q @ ''%'') b)"
    using like_percent_prefix[of "q @ ''%''" s] by simp
  also have "\<dots> \<longleftrightarrow> (\<exists>a b. s = a @ b \<and> (\<exists>r. b = q @ r))"
    using like_literal[OF assms, of "''%''"] like_percent by simp
  also have "\<dots> \<longleftrightarrow> sublist q s"
    by (auto simp: sublist_def)
  finally show ?thesis .
qed

lemma lower_ascii_range:
  "lower_ascii c = c \<or> lower_ascii c \<in> set ''abcdefghijklmnopqrstuvwxyz''"
proof (cases "map_of (zip ''ABCDEFGHIJKLMNOPQRSTUVWXYZ'' ''abcdefghijklmnopqrstuvwxyz'') c")
  case None
  then show ?thesis by (simp add: lower_ascii_def)
next
  case (Some l)
  then have "(c, l) \<in> set (zip ''ABCDEFGHIJKLMNOPQRSTUVWXYZ'' ''abcdefghijklmnopqrstuvwxyz'')"
    by (rule map_of_SomeD)
  then have "l \<in> set ''abcdefghijklmnopqrstuvwxyz''" by (rule set_zip_rightD)
  with Some show ?thesis by (simp add: lower_ascii_def)
qed

lemma lower_ascii_fixed:
  "lower_ascii (CHR ''%'') = CHR ''%''" "lower_ascii (CHR ''_'') = CHR ''_''"
  by (simp_all add: lower_ascii_def)

lemma lower_ascii_wild:
  "lower_ascii c = CHR ''%'' \<longleftrightarrow> c = CHR ''%''" "lower_ascii c = CHR ''_'' \<longleftrightarrow> c = CHR ''_''"
  using lower_ascii_range[of c] lower_ascii_fixed by auto

section \<open>The list operation\<close>

text \<open>
  The store reads a text or a pattern without NUL as it is, and the UTF-8 form of a
  string has between one and two bytes per character.
\<close>

lemma c_str_id: "CHR 0x00 \<notin> set s \<Longrightarrow> c_str s = s"
  unfolding c_str_def by (rule takeWhile_eq_all_conv[THEN iffD2]) auto

lemma lower_ascii_nul: "lower_ascii c = CHR 0x00 \<longleftrightarrow> c = CHR 0x00"
  by (auto simp: lower_ascii_def split: option.splits dest!: map_of_SomeD)

lemma lower_ascii_nul_free: "CHR 0x00 \<notin> set s \<Longrightarrow> CHR 0x00 \<notin> set (map lower_ascii s)"
proof
  assume a: "CHR 0x00 \<notin> set s" and "CHR 0x00 \<in> set (map lower_ascii s)"
  then obtain x where "x \<in> set s" "lower_ascii x = CHR 0x00" by auto
  with a show False by (simp add: lower_ascii_nul)
qed

lemma utf8_encode_length: "length s \<le> length (utf8_encode s)"
  unfolding utf8_encode_def by (induction s) (simp_all add: Let_def)

lemma utf8_encode_length_le: "length (utf8_encode s) \<le> 2 * length s"
  unfolding utf8_encode_def by (induction s) (simp_all add: Let_def)

lemma too_complex_long: "50000 < length p \<Longrightarrow> too_complex p"
  unfolding too_complex_def using utf8_encode_length[of "map lower_ascii p"] by simp

lemma too_complex_short: "length p \<le> 25000 \<Longrightarrow> \<not> too_complex p"
  unfolding too_complex_def using utf8_encode_length_le[of "map lower_ascii p"] by simp

lemma ilike_contains:
  assumes "CHR ''%'' \<notin> set q" and "CHR ''_'' \<notin> set q" and "CHR 0x00 \<notin> set q"
    and "\<forall>t. col = Some t \<longrightarrow> CHR 0x00 \<notin> set t"
  shows "ilike col (''%'' @ q @ ''%'') \<longleftrightarrow>
    (\<exists>t. col = Some t \<and> sublist (map lower_ascii q) (map lower_ascii t))"
proof (cases col)
  case None
  then show ?thesis by (simp add: ilike_def)
next
  case (Some t)
  have p: "map lower_ascii (''%'' @ q @ ''%'') = ''%'' @ map lower_ascii q @ ''%''"
    by (simp add: lower_ascii_fixed)
  from assms(3) have "CHR 0x00 \<notin> set (''%'' @ map lower_ascii q @ ''%'')"
    using lower_ascii_nul_free[of q] by simp
  then have cp: "c_str (''%'' @ map lower_ascii q @ ''%'') = ''%'' @ map lower_ascii q @ ''%''"
    by (rule c_str_id)
  from assms(4) Some have "CHR 0x00 \<notin> set t" by simp
  then have ct: "c_str (map lower_ascii t) = map lower_ascii t"
    by (intro c_str_id lower_ascii_nul_free)
  have "CHR ''%'' \<notin> set (map lower_ascii q)"
  proof
    assume "CHR ''%'' \<in> set (map lower_ascii q)"
    then obtain x where "x \<in> set q" "lower_ascii x = CHR ''%''" by auto
    with assms(1) show False by (simp add: lower_ascii_wild)
  qed
  moreover have "CHR ''_'' \<notin> set (map lower_ascii q)"
  proof
    assume "CHR ''_'' \<in> set (map lower_ascii q)"
    then obtain x where "x \<in> set q" "lower_ascii x = CHR ''_''" by auto
    with assms(2) show False by (simp add: lower_ascii_wild)
  qed
  ultimately have "CHR ''%'' \<notin> set (map lower_ascii q)" "CHR ''_'' \<notin> set (map lower_ascii q)"
    by simp_all
  from like_contains[OF this, of "map lower_ascii t"]
  have l: "like (''%'' @ map lower_ascii q @ ''%'') (map lower_ascii t) \<longleftrightarrow>
      sublist (map lower_ascii q) (map lower_ascii t)" .
  have "ilike (Some t) (''%'' @ q @ ''%'') \<longleftrightarrow>
      like (c_str (map lower_ascii (''%'' @ q @ ''%''))) (c_str (map lower_ascii t))"
    by (simp only: ilike_def option.case)
  also have "\<dots> \<longleftrightarrow> like (''%'' @ map lower_ascii q @ ''%'') (map lower_ascii t)"
    by (simp only: p cp ct)
  finally show ?thesis using l Some by simp
qed

lemma filters_compose:
  "(if c then filter R (if b then filter Q (if a then filter P xs else xs)
                        else (if a then filter P xs else xs))
    else (if b then filter Q (if a then filter P xs else xs)
          else (if a then filter P xs else xs))) =
   filter (\<lambda>m. (a \<longrightarrow> P m) \<and> (b \<longrightarrow> Q m) \<and> (c \<longrightarrow> R m)) xs"
  by (cases a; cases b; cases c) simp_all

lemma filters_compose2:
  "(if b then filter Q (if a then filter P xs else xs) else (if a then filter P xs else xs)) =
   filter (\<lambda>m. (a \<longrightarrow> P m) \<and> (b \<longrightarrow> Q m)) xs"
  by (cases a; cases b) simp_all

text \<open>The three outcomes of the list operation, with the filters written as one selection.\<close>

lemma get_messages_outcome:
  "get_messages l off from_arg since q env st =
     (if truthy q \<and>
         filter (\<lambda>m. (truthy from_arg \<longrightarrow> from_msisdn m = value_of from_arg) \<and>
                     (truthy since \<longrightarrow> value_of since \<le> ts m)) (db st) \<noteq> [] \<and>
         too_complex (''%'' @ value_of q @ ''%'')
      then (Inl OperationalError, st)
      else if (if off < 0 then 0 else off) > 2 ^ 63 - 1 then (Inl OverflowError, st)
      else (Inr \<lparr>lr_data = map from_orm
                    (take (nat (if l < 1 \<or> l > 100 then 50 else l))
                      (drop (nat (if off < 0 then 0 else off))
                        (order_by_ts_id
                          (filter (\<lambda>m. (truthy from_arg \<longrightarrow> from_msisdn m = value_of from_arg) \<and>
                             (truthy since \<longrightarrow> value_of since \<le> ts m) \<and>
                             (truthy q \<longrightarrow> ilike (msg_text m) (''%'' @ value_of q @ ''%'')))
                            (db st))))),
                 lr_total = length
                    (filter (\<lambda>m. (truthy from_arg \<longrightarrow> from_msisdn m = value_of from_arg) \<and>
                       (truthy since \<longrightarrow> value_of since \<le> ts m) \<and>
                       (truthy q \<longrightarrow> ilike (msg_text m) (''%'' @ value_of q @ ''%'')))
                      (db st)),
                 lr_limit = (if l < 1 \<or> l > 100 then 50 else l),
                 lr_offset = (if off < 0 then 0 else off)\<rparr>,
            st\<lparr>metrics := record_latency (env_latency_ms env)
                   (record_http_request ''/messages'' 200 (metrics st)),
               log_lines := log_request (env_request_id env) ''GET'' ''/messages''
                   200 (env_latency_ms env)
                   [(''limit'', LInt (if l < 1 \<or> l > 100 then 50 else l)),
                    (''offset'', LInt (if off < 0 then 0 else off)),
                    (''total'', LNat (length
                    (filter (\<lambda>m. (truthy from_arg \<longrightarrow> from_msisdn m = value_of from_arg) \<and>
                       (truthy since \<longrightarrow> value_of since \<le> ts m) \<and>
                       (truthy q \<longrightarrow> ilike (msg_text m) (''%'' @ value_of q @ ''%'')))
                      (db st))))]
                   (log_lines st)\<rparr>))"
  unfolding get_messages_def Let_def filters_compose filters_compose2 by simp

text \<open>
  With an offset of at most \<open>2^63 - 1\<close> and a pattern that the store does not refuse, the
  operation returns a response. The response carries the resolved limit and offset (a
  limit below 1 or above 100 becomes 50, a negative offset becomes 0), and its page is
  cut with them from the selected rows in listing order.
\<close>

lemma get_messages_resolves:
  assumes "off \<le> 2 ^ 63 - 1" and "\<not> (truthy q \<and> too_complex (''%'' @ value_of q @ ''%''))"
  shows "\<exists>resp st'. get_messages l off from_arg since q env st = (Inr resp, st') \<and>
     lr_limit resp = (if 1 \<le> l \<and> l \<le> 100 then l else 50) \<and>
     lr_offset resp = (if off < 0 then 0 else off) \<and>
     lr_total resp =
       length (filter (\<lambda>m. (truthy from_arg \<longrightarrow> from_msisdn m = value_of from_arg) \<and>
          (truthy since \<longrightarrow> value_of since \<le> ts m) \<and>
          (truthy q \<longrightarrow> ilike (msg_text m) (''%'' @ value_of q @ ''%''))) (db st)) \<and>
     lr_data resp =
       map from_orm
         (take (nat (if 1 \<le> l \<and> l \<le> 100 then l else 50))
           (drop (nat (if off < 0 then 0 else off))
             (order_by_ts_id
               (filter (\<lambda>m. (truthy from_arg \<longrightarrow> from_msisdn m = value_of from_arg) \<and>
                  (truthy since \<longrightarrow> value_of since \<le> ts m) \<and>
                  (truthy q \<longrightarrow> ilike (msg_text m) (''%'' @ value_of q @ ''%''))) (db st)))))"
proof -
  from assms(1) have o: "\<not> (if off < 0 then 0 else off) > 2 ^ 63 - 1" by simp
  have l: "(if l < 1 \<or> l > 100 then 50 else l) = (if 1 \<le> l \<and> l \<le> 100 then l else 50)"
    by auto
  show ?thesis
    unfolding get_messages_outcome l using assms(2) o by auto
qed

lemma get_messages_Inr:
  assumes "get_messages l off from_arg since q env st = (Inr resp, st')"
  shows "lr_data resp =
       map from_orm
         (take (nat (lr_limit resp))
           (drop (nat (lr_offset resp))
             (order_by_ts_id
               (filter (\<lambda>m. (truthy from_arg \<longrightarrow> from_msisdn m = value_of from_arg) \<and>
                  (truthy since \<longrightarrow> value_of since \<le> ts m) \<and>
                  (truthy q \<longrightarrow> ilike (msg_text m) (''%'' @ value_of q @ ''%''))) (db st)))))"
  using assms unfolding get_messages_outcome by (auto split: if_splits)

section \<open>Pagination\<close>

text \<open>
  C4. With the offset \<open>2^63\<close>, which is not negative and so resolves to itself, the list
  operation returns no response: whatever the limit and the filters, binding the
  offset raises \<open>OverflowError\<close> (or, with an over-long \<open>q\<close>, the count has already
  raised \<open>OperationalError\<close>), nothing catches it, and neither a metric nor a log line
  is recorded. No response echoes the resolved offset.
\<close>

theorem get_messages_offset_overflow:
  "get_messages l (2 ^ 63) from_arg since None env st = (Inl OverflowError, st) \<and>
   (\<forall>resp. fst (get_messages l (2 ^ 63) from_arg since q env st) \<noteq> Inr resp) \<and>
   snd (get_messages l (2 ^ 63) from_arg since q env st) = st"
  unfolding get_messages_outcome by simp

section \<open>Filters\<close>

text \<open>
  A \<open>q\<close> of 49999 characters or more gives a pattern of more than 50000 bytes: on a
  table with a row the operation raises \<open>OperationalError\<close>.
\<close>

lemma get_messages_pattern_too_long:
  assumes "49999 \<le> length s" and "db st \<noteq> []"
  shows "get_messages l off None None (Some s) env st = (Inl OperationalError, st)"
proof -
  from assms(1) have "too_complex (''%'' @ value_of (Some s) @ ''%'')"
    by (intro too_complex_long) simp
  moreover from assms(1) have "truthy (Some s)" by auto
  ultimately show ?thesis
    unfolding get_messages_outcome using assms(2) by simp
qed

lemma ex_since: "''2025-01-16T00:00:00Z'' \<le> ''2025-01-16T09:00:00Z''"
  "\<not> ''2025-01-16T00:00:00Z'' \<le> ''2025-01-15T10:00:00Z''"
  by simp_all

lemma ex_like: "like ''%world%'' ''hello world''"
  by simp

lemma ex_lower: "map lower_ascii ''%WORLD%'' = ''%world%''" "map lower_ascii ''Hello World'' = ''hello world''"
  by (simp_all add: lower_ascii_def)

lemma ex_c_str: "c_str ''%world%'' = ''%world%''" "c_str ''hello world'' = ''hello world''"
  "c_str ''%_%'' = ''%_%''" "c_str [CHR ''%'', CHR 0x00, CHR ''%''] = ''%''"
  by (simp_all add: c_str_def)

lemma ex_filtered:
  "fst (get_messages 50 0 (Some ''+1000000003'') (Some ''2025-01-16T00:00:00Z'')
     (Some ''WORLD'') ex_env (ex_state\<lparr>db := [ex_row, ex_row2]\<rparr>)) =
   Inr \<lparr>lr_data = [from_orm ex_row2], lr_total = 1, lr_limit = 50, lr_offset = 0\<rparr>"
proof -
  have "\<not> too_complex (''%'' @ value_of (Some ''WORLD'') @ ''%'')"
    by (intro too_complex_short) simp
  then show ?thesis
    unfolding get_messages_outcome using ex_lower ex_like ex_since ex_c_str
    by (simp add: ex_row_def ex_row2_def ilike_def order_by_ts_id_def)
qed

text \<open>
  C5. Let \<open>q\<close> hold none of \<open>%\<close>, \<open>_\<close> and NUL, let the pattern \<open>%q%\<close> take at most 50000
  bytes, let no stored text hold a NUL, and let the offset be at most \<open>2^63 - 1\<close>. Then
  the operation returns a response. A filter is applied when its argument is given and
  not empty. The rows selected are those that pass every applied filter: \<open>from_\<close> keeps
  the rows whose \<open>from_msisdn\<close> equals it, \<open>since\<close> keeps the rows whose \<open>ts\<close> is at least
  \<open>since\<close> in the order of strings, and \<open>q\<close> keeps the rows whose text is not \<open>NULL\<close> and
  contains \<open>q\<close> as a contiguous piece once the ASCII letters of both are lowered.
  \<open>total\<close> is the number of selected rows, and \<open>data\<close> is the page cut from the
  selected rows in listing order by the resolved offset and limit, which the response
  carries: a limit below 1 or above 100 becomes 50, a negative offset becomes 0.
\<close>

theorem get_messages_filters:
  assumes "CHR ''%'' \<notin> set (value_of q)" and "CHR ''_'' \<notin> set (value_of q)"
    and "CHR 0x00 \<notin> set (value_of q)"
    and "\<not> too_complex (''%'' @ value_of q @ ''%'')"
    and "\<forall>m \<in> set (db st). \<forall>t. msg_text m = Some t \<longrightarrow> CHR 0x00 \<notin> set t"
    and "off \<le> 2 ^ 63 - 1"
  shows "\<exists>resp st'. get_messages l off from_arg since q env st = (Inr resp, st') \<and>
     lr_limit resp = (if 1 \<le> l \<and> l \<le> 100 then l else 50) \<and>
     lr_offset resp = (if off < 0 then 0 else off) \<and>
     lr_total resp =
       length (filter (\<lambda>m. (truthy from_arg \<longrightarrow> from_msisdn m = value_of from_arg) \<and>
          (truthy since \<longrightarrow> value_of since \<le> ts m) \<and>
          (truthy q \<longrightarrow> (\<exists>t. msg_text m = Some t \<and>
             sublist (map lower_ascii (value_of q)) (map lower_ascii t)))) (db st)) \<and>
     lr_data resp =
       map from_orm
         (take (nat (lr_limit resp))
           (drop (nat (lr_offset resp))
             (order_by_ts_id
               (filter (\<lambda>m. (truthy from_arg \<longrightarrow> from_msisdn m = value_of from_arg) \<and>
                  (truthy since \<longrightarrow> value_of since \<le> ts m) \<and>
                  (truthy q \<longrightarrow> (\<exists>t. msg_text m = Some t \<and>
                     sublist (map lower_ascii (value_of q)) (map lower_ascii t)))) (db st)))))"
proof -
  let ?sel = "\<lambda>m. (truthy from_arg \<longrightarrow> from_msisdn m = value_of from_arg) \<and>
          (truthy since \<longrightarrow> value_of since \<le> ts m) \<and>
          (truthy q \<longrightarrow> ilike (msg_text m) (''%'' @ value_of q @ ''%''))"
  let ?spec = "\<lambda>m. (truthy from_arg \<longrightarrow> from_msisdn m = value_of from_arg) \<and>
          (truthy since \<longrightarrow> value_of since \<le> ts m) \<and>
          (truthy q \<longrightarrow> (\<exists>t. msg_text m = Some t \<and>
             sublist (map lower_ascii (value_of q)) (map lower_ascii t)))"
  have "?sel m = ?spec m" if "m \<in> set (db st)" for m
  proof -
    from assms(5) that have "\<forall>t. msg_text m = Some t \<longrightarrow> CHR 0x00 \<notin> set t" by blast
    from ilike_contains[OF assms(1) assms(2) assms(3) this] show ?thesis by simp
  qed
  then have f: "filter ?sel (db st) = filter ?spec (db st)"
    by (intro filter_cong) auto
  from assms(4) have "\<not> (truthy q \<and> too_complex (''%'' @ value_of q @ ''%''))" by simp
  from get_messages_resolves[OF assms(6) this, of l from_arg since env st]
  obtain resp st' where r: "get_messages l off from_arg since q env st = (Inr resp, st')"
    and lo: "lr_limit resp = (if 1 \<le> l \<and> l \<le> 100 then l else 50)"
      "lr_offset resp = (if off < 0 then 0 else off)"
    and t: "lr_total resp = length (filter ?sel (db st))" by blast
  from get_messages_Inr[OF r]
  have "lr_data resp = map from_orm (take (nat (lr_limit resp)) (drop (nat (lr_offset resp))
      (order_by_ts_id (filter ?sel (db st)))))" .
  with r lo t show ?thesis unfolding f by blast
qed

theorem get_messages_filters_witness:
  "\<exists>resp st'. get_messages 50 0 (Some ''+1000000003'') (Some ''2025-01-16T00:00:00Z'')
       (Some ''WORLD'') ex_env (ex_state\<lparr>db := [ex_row, ex_row2]\<rparr>) = (Inr resp, st') \<and>
     lr_total resp = 1 \<and> lr_data resp = [from_orm ex_row2] \<and>
     length (filter (\<lambda>m. from_msisdn m = ''+1000000003'' \<and> ''2025-01-16T00:00:00Z'' \<le> ts m \<and>
        (\<exists>t. msg_text m = Some t \<and> sublist (map lower_ascii ''WORLD'') (map lower_ascii t)))
      [ex_row, ex_row2]) = 1"
proof -
  have 1: "CHR ''%'' \<notin> set (value_of (Some ''WORLD''))" by simp
  have 2: "CHR ''_'' \<notin> set (value_of (Some ''WORLD''))" by simp
  have 3: "CHR 0x00 \<notin> set (value_of (Some ''WORLD''))" by simp
  have 4: "\<not> too_complex (''%'' @ value_of (Some ''WORLD'') @ ''%'')"
    by (intro too_complex_short) simp
  have 5: "\<forall>m \<in> set (db (ex_state\<lparr>db := [ex_row, ex_row2]\<rparr>)).
      \<forall>t. msg_text m = Some t \<longrightarrow> CHR 0x00 \<notin> set t"
    by (simp add: ex_row_def ex_row2_def)
  have 6: "(0::int) \<le> 2 ^ 63 - 1" by simp
  from get_messages_filters[OF 1 2 3 4 5 6, of 50 "Some ''+1000000003''"
      "Some ''2025-01-16T00:00:00Z''" ex_env]
  obtain resp st' where
    r: "get_messages 50 0 (Some ''+1000000003'') (Some ''2025-01-16T00:00:00Z'')
       (Some ''WORLD'') ex_env (ex_state\<lparr>db := [ex_row, ex_row2]\<rparr>) = (Inr resp, st')" and
    t: "lr_total resp =
      length (filter (\<lambda>m. from_msisdn m = ''+1000000003'' \<and> ''2025-01-16T00:00:00Z'' \<le> ts m \<and>
        (\<exists>t. msg_text m = Some t \<and> sublist (map lower_ascii ''WORLD'') (map lower_ascii t)))
      [ex_row, ex_row2])"
    by auto
  from r ex_filtered have
    "resp = \<lparr>lr_data = [from_orm ex_row2], lr_total = 1, lr_limit = 50, lr_offset = 0\<rparr>"
    by simp
  with r t show ?thesis by auto
qed

text \<open>
  An empty \<open>from_\<close> selects every row although no row has an empty sender, and the
  pattern character \<open>_\<close> as \<open>q\<close> selects a row whose text has no underscore.
\<close>

theorem get_messages_empty_filter_and_wildcard:
  "fst (get_messages 50 0 (Some []) None None ex_env (ex_state\<lparr>db := [ex_row]\<rparr>)) =
     Inr \<lparr>lr_data = [from_orm ex_row], lr_total = 1, lr_limit = 50, lr_offset = 0\<rparr> \<and>
   from_msisdn ex_row \<noteq> [] \<and>
   fst (get_messages 50 0 None None (Some ''_'') ex_env (ex_state\<lparr>db := [ex_row2]\<rparr>)) =
     Inr \<lparr>lr_data = [from_orm ex_row2], lr_total = 1, lr_limit = 50, lr_offset = 0\<rparr> \<and>
   msg_text ex_row2 = Some ''Hello World'' \<and> \<not> sublist ''_'' ''Hello World''"
proof -
  have a: "fst (get_messages 50 0 (Some []) None None ex_env (ex_state\<lparr>db := [ex_row]\<rparr>)) =
     Inr \<lparr>lr_data = [from_orm ex_row], lr_total = 1, lr_limit = 50, lr_offset = 0\<rparr>"
    unfolding get_messages_outcome by (simp add: order_by_ts_id_def)
  have l: "map lower_ascii ''%_%'' = ''%_%''" by (simp add: lower_ascii_def)
  have k: "like ''%_%'' ''hello world''" by simp
  have t: "\<not> too_complex (''%'' @ value_of (Some ''_'') @ ''%'')"
    by (intro too_complex_short) simp
  have b: "fst (get_messages 50 0 None None (Some ''_'') ex_env
     (ex_state\<lparr>db := [ex_row2]\<rparr>)) =
     Inr \<lparr>lr_data = [from_orm ex_row2], lr_total = 1, lr_limit = 50, lr_offset = 0\<rparr>"
    unfolding get_messages_outcome using t l k ex_lower(2) ex_c_str
    by (simp add: ex_row2_def ilike_def order_by_ts_id_def)
  have c: "\<not> sublist ''_'' ''Hello World''"
    by (simp add: sublist_Cons_right)
  from a b c show ?thesis by (simp add: ex_row_def ex_row2_def)
qed

text \<open>A \<open>q\<close> that is one NUL selects a row whose text has no NUL.\<close>

lemma get_messages_nul_pattern:
  "fst (get_messages 50 0 None None (Some [CHR 0x00]) ex_env (ex_state\<lparr>db := [ex_row2]\<rparr>)) =
     Inr \<lparr>lr_data = [from_orm ex_row2], lr_total = 1, lr_limit = 50, lr_offset = 0\<rparr> \<and>
   msg_text ex_row2 = Some ''Hello World'' \<and> CHR 0x00 \<notin> set ''Hello World''"
proof -
  have l: "map lower_ascii [CHR ''%'', CHR 0x00, CHR ''%''] = [CHR ''%'', CHR 0x00, CHR ''%'']"
    by (simp add: lower_ascii_def)
  have k: "like ''%'' ''hello world''" by (rule like_percent)
  have t: "\<not> too_complex (''%'' @ value_of (Some [CHR 0x00]) @ ''%'')"
    by (intro too_complex_short) simp
  have b: "fst (get_messages 50 0 None None (Some [CHR 0x00]) ex_env
     (ex_state\<lparr>db := [ex_row2]\<rparr>)) =
     Inr \<lparr>lr_data = [from_orm ex_row2], lr_total = 1, lr_limit = 50, lr_offset = 0\<rparr>"
    unfolding get_messages_outcome using t l k ex_lower(2) ex_c_str
    by (simp add: ex_row2_def ilike_def order_by_ts_id_def)
  then show ?thesis by (simp add: ex_row2_def)
qed

section \<open>Listing order\<close>

lemma key_from_orm:
  "map (\<lambda>r. (resp_ts r, resp_message_id r)) (map from_orm rows) =
   map (\<lambda>m. (ts m, message_id m)) rows"
  by (simp add: from_orm_def)

lemma sorted_page:
  "sorted (map (\<lambda>m. (ts m, message_id m)) (take n (drop k (order_by_ts_id rows))))"
proof -
  have "sorted (map (\<lambda>m. (ts m, message_id m)) (order_by_ts_id rows))"
    by (simp add: order_by_ts_id_def)
  then have "sorted (take n (drop k (map (\<lambda>m. (ts m, message_id m)) (order_by_ts_id rows))))"
    by simp
  then show ?thesis by (simp add: take_map drop_map)
qed

lemma distinct_page:
  assumes "distinct (map message_id rows)"
  shows "distinct (map (\<lambda>m. (ts m, message_id m)) (take n (drop k (order_by_ts_id rows))))"
proof -
  from assms have "distinct (map message_id (order_by_ts_id rows))"
    using mset_eq_imp_distinct_iff[of "map message_id (order_by_ts_id rows)" "map message_id rows"]
    by (simp add: order_by_ts_id_def)
  then have "distinct (map message_id (take n (drop k (order_by_ts_id rows))))"
    by (simp add: distinct_map inj_on_def) (meson in_set_dropD in_set_takeD)
  then show ?thesis
    by (auto simp: distinct_map inj_on_def)
qed

lemma get_messages_data:
  assumes "get_messages l off from_arg since q env st = (Inr resp, st')"
  shows "\<exists>n k rows. lr_data resp = map from_orm (take n (drop k (order_by_ts_id rows))) \<and>
     (distinct (map message_id (db st)) \<longrightarrow> distinct (map message_id rows))"
proof -
  let ?sel = "\<lambda>m. (truthy from_arg \<longrightarrow> from_msisdn m = value_of from_arg) \<and>
        (truthy since \<longrightarrow> value_of since \<le> ts m) \<and>
        (truthy q \<longrightarrow> ilike (msg_text m) (''%'' @ value_of q @ ''%''))"
  from get_messages_Inr[OF assms]
  have "lr_data resp = map from_orm (take (nat (lr_limit resp)) (drop (nat (lr_offset resp))
           (order_by_ts_id (filter ?sel (db st)))))" .
  moreover have "distinct (map message_id (db st)) \<longrightarrow>
      distinct (map message_id (filter ?sel (db st)))"
    by (simp add: distinct_map_filter)
  ultimately show ?thesis by blast
qed

lemma ex_page:
  "get_messages 50 0 None None None ex_env (ex_state\<lparr>db := [ex_row, ex_row3]\<rparr>) =
     (Inr \<lparr>lr_data = [from_orm ex_row3, from_orm ex_row], lr_total = 2, lr_limit = 50,
           lr_offset = 0\<rparr>,
      ex_state\<lparr>db := [ex_row, ex_row3],
        metrics := record_latency 3 (record_http_request ''/messages'' 200 metrics_init),
        log_lines := log_request ''r1'' ''GET'' ''/messages'' 200 3
          [(''limit'', LInt 50), (''offset'', LInt 0), (''total'', LNat 2)] []\<rparr>)"
  unfolding get_messages_outcome
  by (simp add: order_by_ts_id_def ex_row_def ex_row3_def ex_state_def ex_env_def
      numeral_2_eq_2)

text \<open>
  C6. The items of every response of the list operation are sorted by the pair (\<open>ts\<close>,
  \<open>message_id\<close>), both ascending: of two items with the same \<open>ts\<close>, the one with the
  smaller \<open>message_id\<close> comes first. Since no two rows of the table share a
  \<open>message_id\<close>, no two items have the same pair and the order is strict.
\<close>

theorem get_messages_sorted:
  assumes "get_messages l off from_arg since q env st = (Inr resp, st')"
  shows "sorted (map (\<lambda>r. (resp_ts r, resp_message_id r)) (lr_data resp)) \<and>
   (\<forall>i j. i < length (lr_data resp) \<and> j < length (lr_data resp) \<and>
      resp_ts (lr_data resp ! i) = resp_ts (lr_data resp ! j) \<and>
      resp_message_id (lr_data resp ! i) < resp_message_id (lr_data resp ! j)
      \<longrightarrow> i < j) \<and>
   (wf_db (db st) \<longrightarrow>
      sorted_wrt (<) (map (\<lambda>r. (resp_ts r, resp_message_id r)) (lr_data resp)))"
proof -
  let ?data = "lr_data resp"
  let ?key = "\<lambda>r. (resp_ts r, resp_message_id r)"
  from get_messages_data[OF assms] obtain n k rows where
    d: "?data = map from_orm (take n (drop k (order_by_ts_id rows)))" and
    w: "distinct (map message_id (db st)) \<longrightarrow> distinct (map message_id rows)" by blast
  have s: "sorted (map ?key ?data)"
    unfolding d key_from_orm by (rule sorted_page)
  have t: "\<forall>i j. i < length ?data \<and> j < length ?data \<and>
      resp_ts (?data ! i) = resp_ts (?data ! j) \<and>
      resp_message_id (?data ! i) < resp_message_id (?data ! j) \<longrightarrow> i < j"
  proof (intro allI impI)
    fix i j
    assume a: "i < length ?data \<and> j < length ?data \<and>
      resp_ts (?data ! i) = resp_ts (?data ! j) \<and>
      resp_message_id (?data ! i) < resp_message_id (?data ! j)"
    show "i < j"
    proof (rule ccontr)
      assume "\<not> i < j"
      then have "j \<le> i" by simp
      with s a have "map ?key ?data ! j \<le> map ?key ?data ! i"
        by (simp add: sorted_iff_nth_mono del: nth_map)
      with a have "?key (?data ! j) \<le> ?key (?data ! i)" by simp
      with a show False by auto
    qed
  qed
  have u: "wf_db (db st) \<longrightarrow> sorted_wrt (<) (map ?key ?data)"
  proof
    assume "wf_db (db st)"
    with w have "distinct (map message_id rows)" by (simp add: wf_db_def)
    then have "distinct (map ?key ?data)"
      unfolding d key_from_orm by (rule distinct_page)
    with s show "sorted_wrt (<) (map ?key ?data)" by (simp add: strict_sorted_iff)
  qed
  from s t u show ?thesis by blast
qed

theorem get_messages_sorted_witness:
  "wf_db (db (ex_state\<lparr>db := [ex_row, ex_row3]\<rparr>)) \<and>
   fst (get_messages 50 0 None None None ex_env (ex_state\<lparr>db := [ex_row, ex_row3]\<rparr>)) =
     Inr \<lparr>lr_data = [from_orm ex_row3, from_orm ex_row], lr_total = 2, lr_limit = 50,
          lr_offset = 0\<rparr> \<and>
   resp_ts (from_orm ex_row3) = resp_ts (from_orm ex_row) \<and>
   resp_message_id (from_orm ex_row3) < resp_message_id (from_orm ex_row) \<and>
   sorted (map (\<lambda>r. (resp_ts r, resp_message_id r)) [from_orm ex_row3, from_orm ex_row]) \<and>
   sorted_wrt (<) (map (\<lambda>r. (resp_ts r, resp_message_id r)) [from_orm ex_row3, from_orm ex_row])"
proof -
  have w: "wf_db (db (ex_state\<lparr>db := [ex_row, ex_row3]\<rparr>))"
    by (simp add: wf_db_def ex_row_def ex_row3_def)
  have a: "resp_ts (from_orm ex_row3) = resp_ts (from_orm ex_row)"
    by (simp add: from_orm_def ex_row_def ex_row3_def)
  have b: "resp_message_id (from_orm ex_row3) < resp_message_id (from_orm ex_row)"
    by (simp add: from_orm_def ex_row_def ex_row3_def)
  from get_messages_sorted[OF ex_page] w
  have "sorted (map (\<lambda>r. (resp_ts r, resp_message_id r)) [from_orm ex_row3, from_orm ex_row])"
    and "sorted_wrt (<) (map (\<lambda>r. (resp_ts r, resp_message_id r)) [from_orm ex_row3, from_orm ex_row])"
    by simp_all
  with w a b ex_page show ?thesis by simp
qed

section \<open>Statistics\<close>

lemma group_by_sender_set:
  "set (group_by_sender rows) =
     (\<lambda>s. (s, length (filter (\<lambda>m. from_msisdn m = s) rows))) ` from_msisdn ` set rows"
  by (simp add: group_by_sender_def)

lemma group_by_sender_fst: "map fst (group_by_sender rows) = remdups (map from_msisdn rows)"
  by (simp add: group_by_sender_def comp_def)

lemma sql_min_Min: "sql_min xs = (if xs = [] then None else Some (Min (set xs)))"
proof (cases xs)
  case Nil
  then show ?thesis by simp
next
  case (Cons a list)
  have "fold min list a = Min (set (a # list))" by (rule Min.set_eq_fold[symmetric])
  with Cons show ?thesis by simp
qed

lemma sql_max_Max: "sql_max xs = (if xs = [] then None else Some (Max (set xs)))"
proof (cases xs)
  case Nil
  then show ?thesis by simp
next
  case (Cons a list)
  have "fold max list a = Max (set (a # list))" by (rule Max.set_eq_fold[symmetric])
  with Cons show ?thesis by simp
qed

lemma top_senders:
  fixes order_desc :: "(string \<times> nat) list \<Rightarrow> (string \<times> nat) list" and rows :: "message list"
  assumes "sorts_desc order_desc"
  defines "tps \<equiv> take 10 (order_desc (group_by_sender rows))"
  shows "length tps \<le> 10"
    and "sorted_wrt (\<lambda>a b. a \<ge> b) (map snd tps)"
    and "distinct (map fst tps)"
    and "\<forall>(s, n) \<in> set tps. s \<in> from_msisdn ` set rows \<and>
           n = length (filter (\<lambda>m. from_msisdn m = s) rows)"
    and "\<forall>s \<in> from_msisdn ` set rows. s \<notin> fst ` set tps \<longrightarrow>
           length tps = 10 \<and>
           (\<forall>(s', n) \<in> set tps. length (filter (\<lambda>m. from_msisdn m = s) rows) \<le> n)"
proof -
  let ?g = "group_by_sender rows"
  let ?o = "order_desc ?g"
  from assms(1) have m: "mset ?o = mset ?g" and d: "sorted_wrt (\<lambda>a b. a \<ge> b) (map snd ?o)"
    by (simp_all add: sorts_desc_def)
  from m have so: "set ?o = set ?g" by (rule mset_eq_setD)
  show "length tps \<le> 10" by (simp add: tps_def)
  from d have "sorted_wrt (\<lambda>a b. a \<ge> b) (take 10 (map snd ?o))" by (rule sorted_wrt_take)
  then show "sorted_wrt (\<lambda>a b. a \<ge> b) (map snd tps)" by (simp add: tps_def take_map)
  from m have "mset (map fst ?o) = mset (map fst ?g)" by (metis mset_map)
  then have "distinct (map fst ?o) \<longleftrightarrow> distinct (map fst ?g)"
    by (rule mset_eq_imp_distinct_iff)
  then have do: "distinct (map fst ?o)" by (simp add: group_by_sender_fst)
  then have "distinct (take 10 (map fst ?o))" by (rule distinct_take)
  then show "distinct (map fst tps)" by (simp add: tps_def take_map)
  have sub: "set tps \<subseteq> set ?g" using so set_take_subset[of 10 ?o] by (simp add: tps_def)
  then show "\<forall>(s, n) \<in> set tps. s \<in> from_msisdn ` set rows \<and>
           n = length (filter (\<lambda>m. from_msisdn m = s) rows)"
    by (auto simp: group_by_sender_set)
  show "\<forall>s \<in> from_msisdn ` set rows. s \<notin> fst ` set tps \<longrightarrow>
           length tps = 10 \<and>
           (\<forall>(s', n) \<in> set tps. length (filter (\<lambda>m. from_msisdn m = s) rows) \<le> n)"
  proof (intro ballI impI)
    fix s
    assume s: "s \<in> from_msisdn ` set rows" and n: "s \<notin> fst ` set tps"
    let ?c = "length (filter (\<lambda>m. from_msisdn m = s) rows)"
    from s have "(s, ?c) \<in> set ?o" by (auto simp: so group_by_sender_set)
    moreover from n have "(s, ?c) \<notin> set (take 10 ?o)" by (force simp: tps_def)
    ultimately have dr: "(s, ?c) \<in> set (drop 10 ?o)"
      by (metis Un_iff append_take_drop_id set_append)
    then have "drop 10 ?o \<noteq> []" by auto
    then have len: "length tps = 10" by (simp add: tps_def)
    have "map snd ?o = map snd (take 10 ?o) @ map snd (drop 10 ?o)"
      by (metis append_take_drop_id map_append)
    with d have "sorted_wrt (\<lambda>a b. a \<ge> b) (map snd (take 10 ?o) @ map snd (drop 10 ?o))"
      by metis
    then have "\<forall>x \<in> set (take 10 ?o). \<forall>y \<in> set (drop 10 ?o). snd x \<ge> snd y"
      unfolding sorted_wrt_append by auto
    with dr have "\<forall>x \<in> set tps. snd x \<ge> ?c" by (force simp: tps_def)
    with len show "length tps = 10 \<and> (\<forall>(s', n) \<in> set tps. ?c \<le> n)" by auto
  qed
qed

lemma ex_order_desc_sorts: "sorts_desc ex_order_desc"
proof -
  have "sorted_wrt (\<lambda>a b. a \<ge> b) (map snd (rev (sort_key snd g)))" for g :: "(string \<times> nat) list"
  proof -
    have "sorted (map snd (sort_key snd g))" by simp
    then have "sorted_wrt (\<lambda>a b. a \<ge> b) (rev (map snd (sort_key snd g)))"
      by (simp add: sorted_wrt_rev)
    then show ?thesis by (simp add: rev_map)
  qed
  then show ?thesis by (simp add: sorts_desc_def ex_order_desc_def)
qed

lemma ex_top:
  "messages_per_sender (fst (get_stats ex_order_desc ex_env
     (ex_state\<lparr>db := [ex_row, ex_row3, ex_row2]\<rparr>))) =
   [(''+1000000001'', 2), (''+1000000003'', 1)]"
  by (simp add: get_stats_def Let_def group_by_sender_def ex_order_desc_def
      ex_row_def ex_row2_def ex_row3_def)

text \<open>
  C7. For every table, and every sort of the store that orders the groups by
  descending count: \<open>total_messages\<close> is the number of rows; \<open>senders_count\<close> is the
  number of distinct \<open>from_msisdn\<close> values; \<open>messages_per_sender\<close> has at most 10 entries,
  with counts descending, no sender twice, each count the number of rows of its sender,
  and a sender is left out only when the list is full and every listed count is at
  least its own; \<open>first_message_ts\<close> and \<open>last_message_ts\<close> are the least and the
  greatest \<open>ts\<close>, and both are \<open>None\<close> on an empty table. The order among senders with
  equal counts is the one the store's sort gives, a function of the groups.
\<close>

theorem get_stats_correct:
  assumes "sorts_desc order_desc"
  shows "total_messages (fst (get_stats order_desc env st)) = length (db st) \<and>
     senders_count (fst (get_stats order_desc env st)) = card (from_msisdn ` set (db st)) \<and>
     length (messages_per_sender (fst (get_stats order_desc env st))) \<le> 10 \<and>
     sorted_wrt (\<lambda>a b. a \<ge> b) (map snd (messages_per_sender (fst (get_stats order_desc env st)))) \<and>
     distinct (map fst (messages_per_sender (fst (get_stats order_desc env st)))) \<and>
     (\<forall>(s, n) \<in> set (messages_per_sender (fst (get_stats order_desc env st))).
        s \<in> from_msisdn ` set (db st) \<and>
        n = length (filter (\<lambda>m. from_msisdn m = s) (db st))) \<and>
     (\<forall>s \<in> from_msisdn ` set (db st).
        s \<notin> fst ` set (messages_per_sender (fst (get_stats order_desc env st))) \<longrightarrow>
        length (messages_per_sender (fst (get_stats order_desc env st))) = 10 \<and>
        (\<forall>(s', n) \<in> set (messages_per_sender (fst (get_stats order_desc env st))).
           length (filter (\<lambda>m. from_msisdn m = s) (db st)) \<le> n)) \<and>
     (db st = [] \<longrightarrow>
        first_message_ts (fst (get_stats order_desc env st)) = None \<and>
        last_message_ts (fst (get_stats order_desc env st)) = None) \<and>
     (db st \<noteq> [] \<longrightarrow>
        first_message_ts (fst (get_stats order_desc env st)) = Some (Min (ts ` set (db st))) \<and>
        last_message_ts (fst (get_stats order_desc env st)) = Some (Max (ts ` set (db st))))"
proof -
  have mps: "messages_per_sender (fst (get_stats order_desc env st)) =
      take 10 (order_desc (group_by_sender (db st)))"
    by (simp add: get_stats_def Let_def)
  have a: "total_messages (fst (get_stats order_desc env st)) = length (db st)"
    by (simp add: get_stats_def Let_def)
  have b: "senders_count (fst (get_stats order_desc env st)) = card (from_msisdn ` set (db st))"
    by (simp add: get_stats_def Let_def length_remdups_card_conv)
  have c: "db st = [] \<longrightarrow>
        first_message_ts (fst (get_stats order_desc env st)) = None \<and>
        last_message_ts (fst (get_stats order_desc env st)) = None"
    by (simp add: get_stats_def Let_def)
  have d: "db st \<noteq> [] \<longrightarrow>
        first_message_ts (fst (get_stats order_desc env st)) = Some (Min (ts ` set (db st))) \<and>
        last_message_ts (fst (get_stats order_desc env st)) = Some (Max (ts ` set (db st)))"
    by (simp add: get_stats_def Let_def sql_min_Min sql_max_Max)
  from a b c d top_senders[OF assms, of "db st"] show ?thesis
    unfolding mps by blast
qed

theorem get_stats_correct_witness:
  "sorts_desc ex_order_desc \<and>
   total_messages (fst (get_stats ex_order_desc ex_env
     (ex_state\<lparr>db := [ex_row, ex_row3, ex_row2]\<rparr>))) = 3 \<and>
   senders_count (fst (get_stats ex_order_desc ex_env
     (ex_state\<lparr>db := [ex_row, ex_row3, ex_row2]\<rparr>))) = 2 \<and>
   messages_per_sender (fst (get_stats ex_order_desc ex_env
     (ex_state\<lparr>db := [ex_row, ex_row3, ex_row2]\<rparr>))) =
     [(''+1000000001'', 2), (''+1000000003'', 1)] \<and>
   first_message_ts (fst (get_stats ex_order_desc ex_env
     (ex_state\<lparr>db := [ex_row, ex_row3, ex_row2]\<rparr>))) = Some ''2025-01-15T10:00:00Z'' \<and>
   last_message_ts (fst (get_stats ex_order_desc ex_env
     (ex_state\<lparr>db := [ex_row, ex_row3, ex_row2]\<rparr>))) = Some ''2025-01-16T09:00:00Z''"
proof -
  let ?st = "ex_state\<lparr>db := [ex_row, ex_row3, ex_row2]\<rparr>"
  note t = get_stats_correct[OF ex_order_desc_sorts, of ex_env ?st]
  have ne: "db ?st \<noteq> []" by simp
  from t have "total_messages (fst (get_stats ex_order_desc ex_env ?st)) = length (db ?st)"
    by blast
  then have a: "total_messages (fst (get_stats ex_order_desc ex_env ?st)) = 3" by simp
  from t have "senders_count (fst (get_stats ex_order_desc ex_env ?st)) =
      card (from_msisdn ` set (db ?st))" by blast
  then have b: "senders_count (fst (get_stats ex_order_desc ex_env ?st)) = 2"
    by (simp add: ex_row_def ex_row2_def ex_row3_def)
  from t ne have "first_message_ts (fst (get_stats ex_order_desc ex_env ?st)) =
      Some (Min (ts ` set (db ?st)))" and
    "last_message_ts (fst (get_stats ex_order_desc ex_env ?st)) =
      Some (Max (ts ` set (db ?st)))" by blast+
  then have c: "first_message_ts (fst (get_stats ex_order_desc ex_env ?st)) =
      Some ''2025-01-15T10:00:00Z''" and
    d: "last_message_ts (fst (get_stats ex_order_desc ex_env ?st)) = Some ''2025-01-16T09:00:00Z''"
    by (simp_all add: ex_row_def ex_row2_def ex_row3_def)
  from a b c d ex_top ex_order_desc_sorts show ?thesis by blast
qed

end
